theory Spec2Isabelle
  imports Complex_Main "HOL-Library.Word"
begin

unbundle bit_operations_syntax

section \<open>Python values\<close>

text \<open>
  A Python \<open>str\<close> is modelled by its UTF-8 encoding, a HOL \<open>string\<close> of bytes: an ASCII
  character is one byte below 128 and every byte of a non-ASCII code point is 128 or above.
  The exceptions the pipeline can see are the constructors of \<open>pyexc\<close>;
  \<open>JSONDecodeError\<close> is a subclass of \<open>ValueError\<close>, nothing else is.
\<close>

datatype pyexc =
    JSONDecodeError | ValueError | TypeError | OverflowError | OSError
  | AttributeError | KeyError | ResponseError | ProgrammingError

definition is_ValueError :: "pyexc \<Rightarrow> bool" where
  "is_ValueError e = (e = ValueError \<or> e = JSONDecodeError)"

definition is_TypeError :: "pyexc \<Rightarrow> bool" where
  "is_TypeError e = (e = TypeError)"

text \<open>
  A Python \<open>float\<close>: binary64 rounding of a finite value is not modelled, a finite float
  carries the exact rational its source denotes; overflow to infinity is modelled.
\<close>

datatype pyfloat = Finite rat | Infinity bool | NaN

datatype pyval =
    PNone
  | PBool bool
  | PInt int
  | PFloat pyfloat
  | PStr string
  | PList "pyval list"
  | PDict "(string \<times> pyval) list"

type_synonym pydict = "(string \<times> pyval) list"

text \<open>Truth value of a Python object (\<open>if x\<close>, \<open>not x\<close>).\<close>

fun truthy :: "pyval \<Rightarrow> bool" where
  "truthy PNone = False"
| "truthy (PBool b) = b"
| "truthy (PInt n) = (n \<noteq> 0)"
| "truthy (PFloat (Finite q)) = (q \<noteq> 0)"
| "truthy (PFloat _) = True"
| "truthy (PStr s) = (s \<noteq> [])"
| "truthy (PList xs) = (xs \<noteq> [])"
| "truthy (PDict kvs) = (kvs \<noteq> [])"

subsection \<open>Dictionaries\<close>

text \<open>
  A \<open>dict\<close> is an association list with distinct keys in insertion order.
  \<open>dict_set\<close> is \<open>d[k] = v\<close>; \<open>dict_get\<close> is \<open>d.get(k)\<close> and \<open>dict_get_default\<close> is
  \<open>d.get(k, default)\<close>; \<open>dict_of_pairs\<close> is \<open>dict(pairs)\<close>; \<open>dict_merge a b\<close> is
  \<open>{**a, **b}\<close>.
\<close>

fun dict_set :: "(string \<times> 'v) list \<Rightarrow> string \<Rightarrow> 'v \<Rightarrow> (string \<times> 'v) list" where
  "dict_set [] k v = [(k, v)]"
| "dict_set ((k', v') # d) k v = (if k' = k then (k, v) # d else (k', v') # dict_set d k v)"

definition dict_get :: "pydict \<Rightarrow> string \<Rightarrow> pyval" where
  "dict_get d k = (case map_of d k of None \<Rightarrow> PNone | Some v \<Rightarrow> v)"

text \<open>\<open>d[k]\<close>, which raises \<open>KeyError\<close> for a missing key.\<close>

definition dict_item :: "(string \<times> 'v) list \<Rightarrow> string \<Rightarrow> pyexc + 'v" where
  "dict_item d k = (case map_of d k of None \<Rightarrow> Inl KeyError | Some v \<Rightarrow> Inr v)"

text \<open>Sequencing of computations that may raise: the first exception wins.\<close>

definition andthen :: "pyexc + 'a \<Rightarrow> ('a \<Rightarrow> pyexc + 'b) \<Rightarrow> pyexc + 'b" where
  "andthen x f = (case x of Inl e \<Rightarrow> Inl e | Inr v \<Rightarrow> f v)"

fun sequence :: "(pyexc + 'a) list \<Rightarrow> pyexc + 'a list" where
  "sequence [] = Inr []"
| "sequence (x # xs) = andthen x (\<lambda>v. andthen (sequence xs) (\<lambda>vs. Inr (v # vs)))"

definition dict_get_default :: "pydict \<Rightarrow> string \<Rightarrow> pyval \<Rightarrow> pyval" where
  "dict_get_default d k dflt = (case map_of d k of None \<Rightarrow> dflt | Some v \<Rightarrow> v)"

definition dict_merge :: "(string \<times> 'v) list \<Rightarrow> (string \<times> 'v) list \<Rightarrow> (string \<times> 'v) list" where
  "dict_merge a b = foldl (\<lambda>d (k, v). dict_set d k v) a b"

definition dict_of_pairs :: "(string \<times> 'v) list \<Rightarrow> (string \<times> 'v) list" where
  "dict_of_pairs pairs = dict_merge [] pairs"

section \<open>Characters and numbers read from text\<close>

definition is_digit :: "char \<Rightarrow> bool" where
  "is_digit c = (c \<in> set ''0123456789'')"

definition digit_val :: "char \<Rightarrow> int" where
  "digit_val c = of_char c - 48"

definition digits_val :: "string \<Rightarrow> int" where
  "digits_val ds = foldl (\<lambda>a c. 10 * a + digit_val c) 0 ds"

text \<open>
  The characters \<open>str.strip\<close>, \<open>int\<close> and \<open>float\<close> skip at both ends: the ASCII ones
  (the non-ASCII white space they skip as well is not modelled).
\<close>

definition is_space :: "char \<Rightarrow> bool" where
  "is_space c = (c \<in> set [CHR 0x09, CHR 0x0A, CHR 0x0B, CHR 0x0C, CHR 0x0D,
                            CHR 0x1C, CHR 0x1D, CHR 0x1E, CHR 0x1F, CHR '' ''])"

definition strip :: "string \<Rightarrow> string" where
  "strip s = rev (dropWhile is_space (rev (dropWhile is_space s)))"

text \<open>
  A run of digits in which single underscores may stand between digits, as \<open>int\<close> and
  \<open>float\<close> accept it: the digits read and the rest of the text.
\<close>

fun digitpart :: "string \<Rightarrow> string \<times> string" where
  "digitpart (c # d # cs) =
     (if is_digit c then
        (if d = CHR ''_'' \<and> cs \<noteq> [] \<and> is_digit (hd cs)
         then (case digitpart cs of (ds, r) \<Rightarrow> (c # ds, r))
         else (case digitpart (d # cs) of (ds, r) \<Rightarrow> (c # ds, r)))
      else ([], c # d # cs))"
| "digitpart [c] = (if is_digit c then ([c], []) else ([], [c]))"
| "digitpart [] = ([], [])"

definition strip_sign :: "string \<Rightarrow> bool \<times> string" where
  "strip_sign s =
     (case s of
        [] \<Rightarrow> (False, [])
      | c # cs \<Rightarrow> if c = CHR ''-'' then (True, cs) else if c = CHR ''+'' then (False, cs)
                  else (False, s))"

text \<open>\<open>int(s)\<close> for a \<open>str\<close>, base 10.\<close>

definition py_int :: "string \<Rightarrow> pyexc + int" where
  "py_int s =
     (case strip_sign (strip s) of (neg, t) \<Rightarrow>
        (case digitpart t of (ds, r) \<Rightarrow>
           if ds = [] \<or> r \<noteq> [] then Inl ValueError
           else Inr (if neg then - digits_val ds else digits_val ds)))"

text \<open>
  The value a binary64 operation delivers for the exact result \<open>q\<close>: infinite when \<open>q\<close>
  rounds to \<open>2 ^ 1024\<close> or beyond.
\<close>

definition dbl_overflows :: "rat \<Rightarrow> bool" where
  "dbl_overflows q = (\<bar>q\<bar> \<ge> 2 ^ 1024 - 2 ^ 970)"

definition to_double :: "rat \<Rightarrow> pyfloat" where
  "to_double q = (if dbl_overflows q then Infinity (q < 0) else Finite q)"

definition lower :: "string \<Rightarrow> string" where
  "lower s = map (\<lambda>c. if c \<in> set ''ABCDEFGHIJKLMNOPQRSTUVWXYZ'' then char_of (of_char c + (32::nat)) else c) s"

text \<open>
  The decimal literal \<open>digits [. digits] [e [sign] digits]\<close> at the front of a text, with at
  least one digit before or after the point: its value and the rest of the text.
\<close>

definition exponent :: "string \<Rightarrow> (int \<times> string) option" where
  "exponent s =
     (case s of
        [] \<Rightarrow> None
      | c # cs \<Rightarrow>
          if c = CHR ''e'' \<or> c = CHR ''E'' then
            (case strip_sign cs of (neg, t) \<Rightarrow>
               (case digitpart t of (ds, r) \<Rightarrow>
                  if ds = [] then None
                  else Some (if neg then - digits_val ds else digits_val ds, r)))
          else None)"

definition pow10 :: "int \<Rightarrow> rat" where
  "pow10 e = (if e < 0 then 1 / 10 ^ nat (- e) else 10 ^ nat e)"

definition decimal :: "string \<Rightarrow> (rat \<times> string) option" where
  "decimal s =
     (case digitpart s of (ip, r1) \<Rightarrow>
        (case (case r1 of
                 [] \<Rightarrow> ([], r1)
               | c # cs \<Rightarrow> if c = CHR ''.'' then digitpart cs else ([], r1)) of (fp, r2) \<Rightarrow>
           if ip = [] \<and> fp = [] then None
           else
             (case exponent r2 of
                None \<Rightarrow> Some (of_int (digits_val (ip @ fp)) * pow10 (- int (length fp)), r2)
              | Some (e, r3) \<Rightarrow>
                  Some (of_int (digits_val (ip @ fp)) * pow10 (e - int (length fp)), r3))))"

text \<open>\<open>float(s)\<close> for a \<open>str\<close>.\<close>

definition py_float_str :: "string \<Rightarrow> pyexc + pyfloat" where
  "py_float_str s =
     (case strip_sign (strip s) of (neg, t) \<Rightarrow>
        if lower t = ''inf'' \<or> lower t = ''infinity'' then Inr (Infinity neg)
        else if lower t = ''nan'' then Inr NaN
        else
          (case decimal t of
             None \<Rightarrow> Inl ValueError
           | Some (q, r) \<Rightarrow>
               if r \<noteq> [] then Inl ValueError
               else Inr (to_double (if neg then - q else q))))"

text \<open>\<open>float(n)\<close> for an \<open>int\<close>: too large an integer raises.\<close>

definition py_float_int :: "int \<Rightarrow> pyexc + pyfloat" where
  "py_float_int n = (if dbl_overflows (of_int n) then Inl OverflowError else Inr (Finite (of_int n)))"

text \<open>\<open>float(x)\<close> for any object.\<close>

fun py_float :: "pyval \<Rightarrow> pyexc + pyfloat" where
  "py_float (PStr s) = py_float_str s"
| "py_float (PInt n) = py_float_int n"
| "py_float (PFloat f) = Inr f"
| "py_float (PBool b) = Inr (Finite (if b then 1 else 0))"
| "py_float PNone = Inl TypeError"
| "py_float (PList xs) = Inl TypeError"
| "py_float (PDict kvs) = Inl TypeError"

section \<open>The regular expression of the interpreter\<close>

text \<open>
  \<open>re.search(r'\{.*\}', content)\<close>: the dot matches any character but a newline and the
  star is greedy, so a match starts at the first \<open>{\<close> that has a \<open>}\<close> after it on its
  line and ends at the last \<open>}\<close> of that line. The result is the matched text
  (\<open>group(0)\<close>) or \<open>None\<close>.
\<close>

definition upto_last_brace :: "string \<Rightarrow> string" where
  "upto_last_brace line = rev (dropWhile (\<lambda>c. c \<noteq> CHR ''}'') (rev line))"

fun re_search :: "string \<Rightarrow> string option" where
  "re_search [] = None"
| "re_search (c # cs) =
     (if c = CHR ''{'' \<and> upto_last_brace (takeWhile (\<lambda>c. c \<noteq> CHR 0x0A) cs) \<noteq> []
      then Some (c # upto_last_brace (takeWhile (\<lambda>c. c \<noteq> CHR 0x0A) cs))
      else re_search cs)"

section \<open>json.loads\<close>

definition is_json_ws :: "char \<Rightarrow> bool" where
  "is_json_ws c = (c \<in> set [CHR '' '', CHR 0x09, CHR 0x0A, CHR 0x0D])"

definition skip_ws :: "string \<Rightarrow> string" where
  "skip_ws s = dropWhile is_json_ws s"

definition hex_val :: "char \<Rightarrow> nat option" where
  "hex_val c =
     (if is_digit c then Some (of_char c - 48)
      else if c \<in> set ''abcdef'' then Some (of_char c - 87)
      else if c \<in> set ''ABCDEF'' then Some (of_char c - 55)
      else None)"

text \<open>The four hexadecimal digits of a \<open>\uXXXX\<close> escape.\<close>

definition hex4 :: "string \<Rightarrow> nat option" where
  "hex4 s =
     (case map hex_val (take 4 s) of
        [Some a, Some b, Some c, Some d] \<Rightarrow> Some (((a * 16 + b) * 16 + c) * 16 + d)
      | _ \<Rightarrow> None)"

text \<open>\<open>chr(u)\<close>, as the bytes of its UTF-8 encoding (a lone surrogate in three bytes).\<close>

definition utf8_encode :: "nat \<Rightarrow> string" where
  "utf8_encode u =
     (if u < 0x80 then [char_of u]
      else if u < 0x800 then [char_of (0xC0 + u div 64), char_of (0x80 + u mod 64)]
      else if u < 0x10000 then
        [char_of (0xE0 + u div 4096), char_of (0x80 + u div 64 mod 64), char_of (0x80 + u mod 64)]
      else
        [char_of (0xF0 + u div 262144), char_of (0x80 + u div 4096 mod 64),
         char_of (0x80 + u div 64 mod 64), char_of (0x80 + u mod 64)])"

definition backslash :: "char \<Rightarrow> char option" where
  "backslash e =
     (if e = CHR 0x22 then Some (CHR 0x22)
      else if e = CHR 0x5C then Some (CHR 0x5C)
      else if e = CHR ''/'' then Some (CHR ''/'')
      else if e = CHR ''b'' then Some (CHR 0x08)
      else if e = CHR ''f'' then Some (CHR 0x0C)
      else if e = CHR ''n'' then Some (CHR 0x0A)
      else if e = CHR ''r'' then Some (CHR 0x0D)
      else if e = CHR ''t'' then Some (CHR 0x09)
      else None)"

definition cons_str :: "string \<Rightarrow> (string \<times> string) option \<Rightarrow> (string \<times> string) option" where
  "cons_str pre r = (case r of None \<Rightarrow> None | Some (str, rest) \<Rightarrow> Some (pre @ str, rest))"

text \<open>
  \<open>scanstring\<close> (strict): the text after an opening quote, up to the closing quote. The
  result is the decoded string and the text after the closing quote; \<open>None\<close> is a
  \<open>JSONDecodeError\<close> (no closing quote, a control character, an invalid escape).
\<close>

function scanstring :: "string \<Rightarrow> (string \<times> string) option" where
  "scanstring [] = None"
| "scanstring (c # cs) =
     (if c = CHR 0x22 then Some ([], cs)
      else if c = CHR 0x5C then
        (case cs of
           [] \<Rightarrow> None
         | e # r \<Rightarrow>
             if e = CHR ''u'' then
               (case hex4 r of
                  None \<Rightarrow> None
                | Some uni \<Rightarrow>
                    if 0xD800 \<le> uni \<and> uni \<le> 0xDBFF \<and> take 2 (drop 4 r) = [CHR 0x5C, CHR ''u''] then
                      (case hex4 (drop 6 r) of
                         None \<Rightarrow> None
                       | Some uni2 \<Rightarrow>
                           if 0xDC00 \<le> uni2 \<and> uni2 \<le> 0xDFFF
                           then cons_str (utf8_encode (0x10000 + ((uni - 0xD800) * 1024 + (uni2 - 0xDC00))))
                                  (scanstring (drop 10 r))
                           else cons_str (utf8_encode uni) (scanstring (drop 4 r)))
                    else cons_str (utf8_encode uni) (scanstring (drop 4 r)))
             else
               (case backslash e of
                  None \<Rightarrow> None
                | Some ch \<Rightarrow> cons_str [ch] (scanstring r)))
      else if (of_char c :: nat) < 0x20 then None
      else cons_str [c] (scanstring cs))"
  by pat_completeness auto
termination
  by (relation "measure length") auto

text \<open>
  \<open>NUMBER_RE\<close>, \<open>(-?(?:0|[1-9]\d*))(\.\d+)?([eE][-+]?\d+)?\<close>, matched at the front of a
  text: the three groups and the text after the match.
\<close>

definition match_integer :: "string \<Rightarrow> (string \<times> string) option" where
  "match_integer s =
     (case (case s of [] \<Rightarrow> ([], s) | c # cs \<Rightarrow> if c = CHR ''-'' then ([c], cs) else ([], s)) of
        (sign, t) \<Rightarrow>
          (case t of
             [] \<Rightarrow> None
           | c # cs \<Rightarrow>
               if c = CHR ''0'' then Some (sign @ [c], cs)
               else if is_digit c then Some (sign @ takeWhile is_digit t, dropWhile is_digit t)
               else None))"

definition match_frac :: "string \<Rightarrow> string \<times> string" where
  "match_frac s =
     (case s of
        c # d # cs \<Rightarrow>
          if c = CHR ''.'' \<and> is_digit d
          then (c # takeWhile is_digit (d # cs), dropWhile is_digit (d # cs))
          else ([], s)
      | _ \<Rightarrow> ([], s))"

definition match_exp :: "string \<Rightarrow> string \<times> string" where
  "match_exp s =
     (case s of
        [] \<Rightarrow> ([], s)
      | c # cs \<Rightarrow>
          if c = CHR ''e'' \<or> c = CHR ''E'' then
            (case (case cs of
                     [] \<Rightarrow> ([], cs)
                   | d # ds \<Rightarrow> if d = CHR ''-'' \<or> d = CHR ''+'' then ([d], ds) else ([], cs)) of
               (sign, t) \<Rightarrow>
                 if takeWhile is_digit t = [] then ([], s)
                 else (c # sign @ takeWhile is_digit t, dropWhile is_digit t))
          else ([], s))"

definition match_number :: "string \<Rightarrow> (string \<times> string \<times> string \<times> string) option" where
  "match_number s =
     (case match_integer s of
        None \<Rightarrow> None
      | Some (ip, r1) \<Rightarrow>
          (case match_frac r1 of (fp, r2) \<Rightarrow>
             (case match_exp r2 of (ep, r3) \<Rightarrow> Some (ip, fp, ep, r3))))"

text \<open>
  The scanner. \<open>Value v rest\<close> is a value and the text after it, \<open>Stop\<close> is a
  \<open>JSONDecodeError\<close> (the scanner's \<open>StopIteration\<close> becomes one in every caller).
  The first argument bounds the number of nested calls; \<open>Exhausted\<close> says the bound was
  too low, which \<open>json_loads\<close> excludes by starting above twice the length of the text.
\<close>

datatype scan = Value pyval string | Stop | Exhausted

definition starts :: "string \<Rightarrow> string \<Rightarrow> bool" where
  "starts p s = (take (length p) s = p)"

definition scan_number :: "string \<Rightarrow> scan" where
  "scan_number s =
     (case match_number s of
        Some (ip, fp, ep, rest) \<Rightarrow>
          if fp \<noteq> [] \<or> ep \<noteq> [] then
            (case py_float_str (ip @ fp @ ep) of
               Inr f \<Rightarrow> Value (PFloat f) rest
             | Inl e \<Rightarrow> Stop)
          else
            (case py_int ip of
               Inr n \<Rightarrow> Value (PInt n) rest
             | Inl e \<Rightarrow> Stop)
      | None \<Rightarrow>
          if starts ''NaN'' s then Value (PFloat NaN) (drop 3 s)
          else if starts ''Infinity'' s then Value (PFloat (Infinity False)) (drop 8 s)
          else if starts ''-Infinity'' s then Value (PFloat (Infinity True)) (drop 9 s)
          else Stop)"

fun scan_once :: "nat \<Rightarrow> string \<Rightarrow> scan"
  and JSONObject :: "nat \<Rightarrow> (string \<times> pyval) list \<Rightarrow> string \<Rightarrow> scan"
  and JSONArray :: "nat \<Rightarrow> pyval list \<Rightarrow> string \<Rightarrow> scan" where
  "scan_once 0 s = Exhausted"
| "scan_once (Suc n) s =
     (case s of
        [] \<Rightarrow> Stop
      | c # cs \<Rightarrow>
          if c = CHR 0x22 then
            (case scanstring cs of None \<Rightarrow> Stop | Some (str, rest) \<Rightarrow> Value (PStr str) rest)
          else if c = CHR ''{'' then
            (case skip_ws cs of
               [] \<Rightarrow> Stop
             | d # ds \<Rightarrow>
                 if d = CHR ''}'' then Value (PDict []) ds
                 else if d = CHR 0x22 then JSONObject n [] ds
                 else Stop)
          else if c = CHR ''['' then
            (case skip_ws cs of
               [] \<Rightarrow> Stop
             | d # ds \<Rightarrow> if d = CHR '']'' then Value (PList []) ds else JSONArray n [] (d # ds))
          else if starts ''null'' s then Value PNone (drop 4 s)
          else if starts ''true'' s then Value (PBool True) (drop 4 s)
          else if starts ''false'' s then Value (PBool False) (drop 5 s)
          else scan_number s)"
| "JSONObject 0 pairs s = Exhausted"
| "JSONObject (Suc n) pairs s =
     (case scanstring s of
        None \<Rightarrow> Stop
      | Some (key, r) \<Rightarrow>
          (case skip_ws r of
             [] \<Rightarrow> Stop
           | c # r1 \<Rightarrow>
               if c \<noteq> CHR '':'' then Stop
               else
                 (case scan_once n (skip_ws r1) of
                    Exhausted \<Rightarrow> Exhausted
                  | Stop \<Rightarrow> Stop
                  | Value v r2 \<Rightarrow>
                      (case skip_ws r2 of
                         [] \<Rightarrow> Stop
                       | d # r3 \<Rightarrow>
                           if d = CHR ''}'' then Value (PDict (dict_of_pairs (pairs @ [(key, v)]))) r3
                           else if d \<noteq> CHR '','' then Stop
                           else
                             (case skip_ws r3 of
                                [] \<Rightarrow> Stop
                              | q # r4 \<Rightarrow>
                                  if q = CHR 0x22 then JSONObject n (pairs @ [(key, v)]) r4
                                  else Stop)))))"
| "JSONArray 0 vals s = Exhausted"
| "JSONArray (Suc n) vals s =
     (case scan_once n s of
        Exhausted \<Rightarrow> Exhausted
      | Stop \<Rightarrow> Stop
      | Value v r \<Rightarrow>
          (case skip_ws r of
             [] \<Rightarrow> Stop
           | d # r1 \<Rightarrow>
               if d = CHR '']'' then Value (PList (vals @ [v])) r1
               else if d \<noteq> CHR '','' then Stop
               else JSONArray n (vals @ [v]) (skip_ws r1)))"

text \<open>
  \<open>json.loads(s)\<close>: leading white space, one value, trailing white space, nothing else.
  Every failure is a \<open>JSONDecodeError\<close>. (The interpreter's limits on recursion depth
  and on the digits of an integer are not modelled.)
\<close>

definition json_loads :: "string \<Rightarrow> pyexc + pyval" where
  "json_loads s =
     (case scan_once (Suc (2 * length s)) (skip_ws s) of
        Value v rest \<Rightarrow> if skip_ws rest = [] then Inr v else Inl JSONDecodeError
      | Stop \<Rightarrow> Inl JSONDecodeError
      | Exhausted \<Rightarrow> Inl JSONDecodeError)"

section \<open>llama.py: the extraction client and the response interpreter\<close>

definition unlines :: "string list \<Rightarrow> string" where
  "unlines ls = concat (map (\<lambda>l. l @ [CHR 0x0A]) ls)"

definition system_prompt :: string where
  \<open>system_prompt = CHR 0x0A # unlines
    [''Analyze the following expense text and output ONLY a JSON object with these fields:'',
     ''Output: {'',
     ''    "Amount": float,  # Amount in INR (numeric only, no currency symbols)'',
     ''    "Type": string, # Must be one of: ["Debit", "Credit"]'',
     ''    "Source": string, # Account/card number'',
     ''    "Destination": string, # Recipient'',
     ''    "Category": string # Must be one of: ["House Rent/EMI","Utility Bills","Groceries and Household Items","Transportation","Healthcare","Education Expenses","Mobile and Internet Bills","Personal Care and Clothing","Entertainment and Recreation","Savings and Investments"]'',
     ''}'',
     '''',
     ''Requirements:'',
     ''1. Return ONLY the JSON object, no additional text'',
     ''2. If expense type is unclear, exclude that message entirely'',
     ''3. Amount should be numeric only (no "Rs" or other symbols)'',
     ''4. Format numbers as floats (e.g., 480.0 not "480")'',
     ''5. If the message is not an expense, return "Not expense" (not expense)'',
     ''6. If the amount is not clear, return  "Amount not clear" (not expense)'',
     ''7. Don'' @ [CHR 0x27] @ ''t return any python code or other text'',
     ''8. If the message is reminder for bill payment, return "Bill payment reminder" (not expense)'',
     ''9. If the message is receipt of payment of credit card bill, return "Credit card bill payment receipt" (not expense)'',
     ''10. If money is requested, then return "Money requested" (not expense)'',
     ''11. If the money is credited/refunded, then return "Money credited/refunded" (not expense)'']\<close>

text \<open>
  \<open>analyze_sms\<close>. The model service is the parameter \<open>generate\<close>: the prompt to the text of
  the response (\<open>ollama.generate(...)['response']\<close>) or the exception the call raised.
  The result is the pair \<open>(content, json_obj)\<close>; Python's \<open>None\<close> is \<open>PNone\<close>.
\<close>

definition prompt :: "string \<Rightarrow> string" where
  "prompt sms =
     system_prompt @ [CHR 0x0A, CHR 0x0A] @ ''Here is the text to analyze:'' @ [CHR 0x0A] @ sms"

definition analyze_sms :: "(string \<Rightarrow> pyexc + string) \<Rightarrow> string \<Rightarrow> string \<times> pyval" where
  "analyze_sms generate sms =
     (case generate (prompt sms) of
        Inl e \<Rightarrow> ([], PNone)
      | Inr content \<Rightarrow>
          (case re_search content of
             Some json_obj \<Rightarrow>
               (case json_loads json_obj of
                  Inr v \<Rightarrow> (content, v)
                | Inl e \<Rightarrow>
                    if e = JSONDecodeError then
                      (case json_loads content of
                         Inr v \<Rightarrow> (content, v)
                       | Inl e' \<Rightarrow> if e' = JSONDecodeError then (content, PNone) else ([], PNone))
                    else ([], PNone))
           | None \<Rightarrow>
               (case json_loads content of
                  Inr v \<Rightarrow> (content, v)
                | Inl e \<Rightarrow> (content, PDict []))))"

section \<open>hashlib.md5\<close>

text \<open>
  MD5 as RFC 1321 defines it, on bytes and 32-bit words held as natural numbers with the
  wrap-around written out.
\<close>

definition md5_K :: "nat list" where
  "md5_K =
    [
     0xd76aa478, 0xe8c7b756, 0x242070db, 0xc1bdceee, 0xf57c0faf, 0x4787c62a, 0xa8304613, 0xfd469501,
     0x698098d8, 0x8b44f7af, 0xffff5bb1, 0x895cd7be, 0x6b901122, 0xfd987193, 0xa679438e, 0x49b40821,
     0xf61e2562, 0xc040b340, 0x265e5a51, 0xe9b6c7aa, 0xd62f105d, 0x02441453, 0xd8a1e681, 0xe7d3fbc8,
     0x21e1cde6, 0xc33707d6, 0xf4d50d87, 0x455a14ed, 0xa9e3e905, 0xfcefa3f8, 0x676f02d9, 0x8d2a4c8a,
     0xfffa3942, 0x8771f681, 0x6d9d6122, 0xfde5380c, 0xa4beea44, 0x4bdecfa9, 0xf6bb4b60, 0xbebfbc70,
     0x289b7ec6, 0xeaa127fa, 0xd4ef3085, 0x04881d05, 0xd9d4d039, 0xe6db99e5, 0x1fa27cf8, 0xc4ac5665,
     0xf4292244, 0x432aff97, 0xab9423a7, 0xfc93a039, 0x655b59c3, 0x8f0ccc92, 0xffeff47d, 0x85845dd1,
     0x6fa87e4f, 0xfe2ce6e0, 0xa3014314, 0x4e0811a1, 0xf7537e82, 0xbd3af235, 0x2ad7d2bb, 0xeb86d391]"

definition md5_s :: "nat list" where
  "md5_s = [7, 12, 17, 22, 7, 12, 17, 22, 7, 12, 17, 22, 7, 12, 17, 22,
            5, 9, 14, 20, 5, 9, 14, 20, 5, 9, 14, 20, 5, 9, 14, 20,
            4, 11, 16, 23, 4, 11, 16, 23, 4, 11, 16, 23, 4, 11, 16, 23,
            6, 10, 15, 21, 6, 10, 15, 21, 6, 10, 15, 21, 6, 10, 15, 21]"

definition add32 :: "nat \<Rightarrow> nat \<Rightarrow> nat" where
  "add32 a b = (a + b) mod 4294967296"

definition not32 :: "nat \<Rightarrow> nat" where
  "not32 a = 4294967295 - a"

definition rotl32 :: "nat \<Rightarrow> nat \<Rightarrow> nat" where
  "rotl32 x n = (x * 2 ^ n) mod 4294967296 + x div 2 ^ (32 - n)"

definition md5_F :: "nat \<Rightarrow> nat \<Rightarrow> nat \<Rightarrow> nat \<Rightarrow> nat" where
  "md5_F i B C D =
     (if i < 16 then (B AND C) OR (not32 B AND D)
      else if i < 32 then (D AND B) OR (not32 D AND C)
      else if i < 48 then B XOR C XOR D
      else C XOR (B OR not32 D))"

definition md5_g :: "nat \<Rightarrow> nat" where
  "md5_g i =
     (if i < 16 then i
      else if i < 32 then (5 * i + 1) mod 16
      else if i < 48 then (3 * i + 5) mod 16
      else (7 * i) mod 16)"

fun md5_round :: "nat list \<Rightarrow> nat \<times> nat \<times> nat \<times> nat \<Rightarrow> nat \<Rightarrow> nat \<times> nat \<times> nat \<times> nat" where
  "md5_round M (A, B, C, D) i =
     (D, add32 B (rotl32 (add32 (add32 (add32 A (md5_F i B C D)) (md5_K ! i)) (M ! md5_g i))
                    (md5_s ! i)), B, C)"

fun le_words :: "nat list \<Rightarrow> nat list" where
  "le_words (b0 # b1 # b2 # b3 # bs) = (b0 + 256 * (b1 + 256 * (b2 + 256 * b3))) # le_words bs"
| "le_words _ = []"

function md5_loop :: "nat list \<Rightarrow> nat \<Rightarrow> nat \<times> nat \<times> nat \<times> nat \<Rightarrow> nat \<times> nat \<times> nat \<times> nat" where
  "md5_loop M i st = (if i < 64 then md5_loop M (i + 1) (md5_round M st i) else st)"
  by pat_completeness auto
termination
  by (relation "measure (\<lambda>(M, i, st). 64 - i)") auto

declare md5_loop.simps [simp del]

definition md5_block :: "nat \<times> nat \<times> nat \<times> nat \<Rightarrow> nat list \<Rightarrow> nat \<times> nat \<times> nat \<times> nat" where
  "md5_block st chunk =
     (case st of (a0, b0, c0, d0) \<Rightarrow>
        (case md5_loop (le_words chunk) 0 st of
           (A, B, C, D) \<Rightarrow> (add32 a0 A, add32 b0 B, add32 c0 C, add32 d0 D)))"

function md5_blocks :: "nat \<times> nat \<times> nat \<times> nat \<Rightarrow> nat list \<Rightarrow> nat \<times> nat \<times> nat \<times> nat" where
  "md5_blocks st bs =
     (if bs = [] then st else md5_blocks (md5_block st (take 64 bs)) (drop 64 bs))"
  by pat_completeness auto
termination
  by (relation "measure (\<lambda>(st, bs). length bs)") auto

declare md5_blocks.simps [simp del]

definition le_bytes4 :: "nat \<Rightarrow> nat list" where
  "le_bytes4 w = [w mod 256, w div 256 mod 256, w div 65536 mod 256, w div 16777216 mod 256]"

text \<open>
  Padding: the byte 128, zero bytes up to 56 modulo 64, and the length in bits as 64 bits,
  low byte first.
\<close>

definition md5_pad :: "nat list \<Rightarrow> nat list" where
  "md5_pad bs =
     bs @ [128] @ replicate ((119 - length bs mod 64) mod 64) 0
        @ le_bytes4 (8 * length bs mod 4294967296)
        @ le_bytes4 (8 * length bs div 4294967296 mod 4294967296)"

definition md5 :: "nat list \<Rightarrow> nat list" where
  "md5 bs =
     (case md5_blocks (0x67452301, 0xefcdab89, 0x98badcfe, 0x10325476) (md5_pad bs) of
        (a, b, c, d) \<Rightarrow> le_bytes4 a @ le_bytes4 b @ le_bytes4 c @ le_bytes4 d)"

definition hex_digit :: "nat \<Rightarrow> char" where
  "hex_digit n = ''0123456789abcdef'' ! n"

definition hexdigest :: "nat list \<Rightarrow> string" where
  "hexdigest bs = concat (map (\<lambda>b. [hex_digit (b div 16), hex_digit (b mod 16)]) bs)"

text \<open>\<open>hashlib.md5(s.encode()).hexdigest()\<close>.\<close>

definition md5_hex :: "string \<Rightarrow> string" where
  "md5_hex s = hexdigest (md5 (map of_char s))"

section \<open>analyze.py: the message normalizer\<close>

definition remove_newlines_non_ascii :: "string \<Rightarrow> string" where
  "remove_newlines_non_ascii text =
     filter (\<lambda>c. c \<noteq> CHR 0x27)
       (filter (\<lambda>c. c \<noteq> CHR 0x22)
          (filter (\<lambda>c. (of_char c :: nat) < 128)
             (map (\<lambda>c. if c = CHR 0x0A then CHR '' '' else c) text)))"

definition json_to_string :: "(pyval \<Rightarrow> string) \<Rightarrow> pyval \<Rightarrow> string" where
  "json_to_string dumps json_obj = dumps json_obj"

definition floatify :: "pyval \<Rightarrow> pyexc + pyfloat" where
  "floatify v =
     (case py_float v of
        Inr f \<Rightarrow> Inr f
      | Inl e \<Rightarrow> if is_ValueError e then Inr (Finite 0) else Inl e)"

text \<open>
  A message is a \<open>dict\<close> whose values are strings or \<open>None\<close>: the attributes of an
  \<open>sms\<close> element, as the normalizer rewrites them.
\<close>

type_synonym sms_dict = "(string \<times> string option) list"

definition sms_get :: "sms_dict \<Rightarrow> string \<Rightarrow> string option" where
  "sms_get d k = (case map_of d k of None \<Rightarrow> None | Some v \<Rightarrow> v)"

text \<open>\<open>a / b\<close> on integers, for \<open>b\<close> other than 0.\<close>

definition true_div :: "int \<Rightarrow> int \<Rightarrow> pyexc + pyfloat" where
  "true_div a b =
     (if dbl_overflows (of_int a / of_int b) then Inl OverflowError
      else Inr (Finite (of_int a / of_int b)))"

text \<open>
  The \<open>try\<close> block on the date. The parameter \<open>fromtimestamp\<close> is
  \<open>datetime.datetime.fromtimestamp(x).strftime('%Y-%m-%d %H:%M:%S')\<close>: the text for the
  local time, or the exception the platform raises. The result is the new value of
  \<open>sms_dict['date']\<close>, or the exception that leaves the block.
\<close>

definition convert_date ::
  "(pyfloat \<Rightarrow> pyexc + string) \<Rightarrow> string option \<Rightarrow> pyexc + string option" where
  "convert_date fromtimestamp d =
     (case andthen (case d of None \<Rightarrow> Inl TypeError | Some s \<Rightarrow> py_int s)
             (\<lambda>timestamp. andthen (true_div timestamp 1000) fromtimestamp) of
        Inr s \<Rightarrow> Inr (Some s)
      | Inl e \<Rightarrow> if is_ValueError e \<or> is_TypeError e then Inr None else Inl e)"

text \<open>\<open>dict(sms.attrib)\<close>.\<close>

definition attrib_dict :: "(string \<times> string) list \<Rightarrow> sms_dict" where
  "attrib_dict attrib = dict_of_pairs (map (\<lambda>(k, v). (k, Some v)) attrib)"

text \<open>The body of the loop over the \<open>sms\<close> elements, for the attributes of one element.\<close>

definition parse_sms ::
  "(pyfloat \<Rightarrow> pyexc + string) \<Rightarrow> (string \<times> string) list \<Rightarrow> pyexc + sms_dict" where
  "parse_sms fromtimestamp attrib =
     andthen
       (case map_of (attrib_dict attrib) ''date'' of
          None \<Rightarrow> Inr (attrib_dict attrib)
        | Some d \<Rightarrow>
            andthen (convert_date fromtimestamp d)
              (\<lambda>r. Inr (dict_set (attrib_dict attrib) ''date'' r)))
       (\<lambda>d1.
          andthen
            (case map_of d1 ''address'' of
               None \<Rightarrow> Inr d1
             | Some a \<Rightarrow>
                 Inr (dict_set d1 ''address''
                        (Some (strip (case a of None \<Rightarrow> ''None'' | Some s \<Rightarrow> s)))))
            (\<lambda>d2.
               case map_of d2 ''body'' of
                 None \<Rightarrow> Inr d2
               | Some None \<Rightarrow> Inl AttributeError
               | Some (Some b) \<Rightarrow>
                   Inr (dict_set (dict_set d2 ''body'' (Some (remove_newlines_non_ascii b)))
                          ''body_md5'' (Some (md5_hex (remove_newlines_non_ascii b))))))"

fun parse_all ::
  "(pyfloat \<Rightarrow> pyexc + string) \<Rightarrow> (string \<times> string) list list \<Rightarrow> pyexc + sms_dict list" where
  "parse_all fromtimestamp [] = Inr []"
| "parse_all fromtimestamp (attrib # elems) =
     andthen (parse_sms fromtimestamp attrib)
       (\<lambda>sms_dict. andthen (parse_all fromtimestamp elems) (\<lambda>sms_list. Inr (sms_dict # sms_list)))"

text \<open>
  \<open>parse_sms_xml\<close>. Reading the file and \<open>etree.fromstring\<close> are outside the model: the
  argument is their outcome, the attributes of the \<open>sms\<close> elements in document order or
  the exception raised. The handler logs and raises again.
\<close>

definition parse_sms_xml ::
  "(pyfloat \<Rightarrow> pyexc + string) \<Rightarrow> pyexc + (string \<times> string) list list \<Rightarrow> pyexc + sms_dict list" where
  "parse_sms_xml fromtimestamp doc =
     (case andthen doc (parse_all fromtimestamp) of
        Inl e \<Rightarrow> Inl e
      | Inr sms_list \<Rightarrow> Inr sms_list)"

section \<open>analyze.py: the record assembler\<close>

definition of_opt :: "string option \<Rightarrow> pyval" where
  "of_opt x = (case x of None \<Rightarrow> PNone | Some s \<Rightarrow> PStr s)"

text \<open>\<open>obj.get(key, default)\<close>: only a \<open>dict\<close> has the method.\<close>

definition method_get :: "pyval \<Rightarrow> string \<Rightarrow> pyval \<Rightarrow> pyexc + pyval" where
  "method_get obj k dflt =
     (case obj of PDict d \<Rightarrow> Inr (dict_get_default d k dflt) | _ \<Rightarrow> Inl AttributeError)"

text \<open>
  The \<open>try\<close> block of \<open>analyze_sms_list\<close> for one message with a body: the record
  \<open>analysis_result\<close>, or the exception raised while it is built. The parameter \<open>dumps\<close>
  is \<open>json.dumps\<close>.
\<close>

definition analysis_result ::
  "(string \<Rightarrow> pyexc + string) \<Rightarrow> (pyval \<Rightarrow> string) \<Rightarrow> sms_dict \<Rightarrow> pyexc + pydict" where
  "analysis_result generate dumps sms =
     andthen (dict_item sms ''body'')
       (\<lambda>body.
          case analyze_sms generate (case body of None \<Rightarrow> ''None'' | Some b \<Rightarrow> b) of
            (content, json_analysis) \<Rightarrow>
              andthen
                (if truthy json_analysis
                 then andthen (method_get json_analysis ''Amount'' (PInt 0))
                        (\<lambda>a. andthen (floatify a) (\<lambda>f. Inr (PFloat f)))
                 else Inr (PInt 0))
                (\<lambda>amount.
                   andthen (method_get json_analysis ''Type'' (PStr ''Unknown''))
                     (\<lambda>type.
                        andthen (method_get json_analysis ''Source'' PNone)
                          (\<lambda>transaction_source.
                             andthen (method_get json_analysis ''Destination'' PNone)
                               (\<lambda>destination.
                                  andthen (method_get json_analysis ''Category'' (PStr ''Unknown''))
                                    (\<lambda>category.
                                       Inr [(''date'', of_opt (sms_get sms ''date'')),
                                            (''source'', of_opt (sms_get sms ''address'')),
                                            (''body'', of_opt (sms_get sms ''body'')),
                                            (''body_md5'', of_opt (sms_get sms ''body_md5'')),
                                            (''llm_output'', PStr (json_to_string dumps json_analysis)),
                                            (''amount'', amount),
                                            (''type'', type),
                                            (''transaction_source'', transaction_source),
                                            (''destination'', destination),
                                            (''category'', category)]))))))"

fun analyze_sms_list ::
  "(string \<Rightarrow> pyexc + string) \<Rightarrow> (pyval \<Rightarrow> string) \<Rightarrow> sms_dict list \<Rightarrow> pydict list" where
  "analyze_sms_list generate dumps [] = []"
| "analyze_sms_list generate dumps (sms # sms_list) =
     (if \<not> truthy (of_opt (sms_get sms ''body'')) then analyze_sms_list generate dumps sms_list
      else
        (case analysis_result generate dumps sms of
           Inl e \<Rightarrow> analyze_sms_list generate dumps sms_list
         | Inr r \<Rightarrow> r # analyze_sms_list generate dumps sms_list))"

definition defaults :: pydict where
  "defaults =
     [(''date'', PNone),
      (''source'', PStr []),
      (''destination'', PStr []),
      (''body'', PStr []),
      (''body_md5'', PStr []),
      (''llm_output'', PStr []),
      (''amount'', PFloat (Finite 0)),
      (''type'', PStr ''Unknown''),
      (''transaction_source'', PStr []),
      (''category'', PStr ''Unknown'')]"

definition ensure_keys :: "pydict \<Rightarrow> pydict" where
  "ensure_keys json_obj = dict_merge defaults (filter (\<lambda>(k, v). v \<noteq> PNone) json_obj)"

section \<open>analyze.py: the persistence sink\<close>

text \<open>
  The table \<open>sms\<close> is the list of its rows in insertion order, a row the values of the ten
  columns after \<open>id\<close> in the order of the \<open>INSERT\<close> statement (the autoincrement \<open>id\<close>
  and the columns' type affinities are not modelled). The database is \<open>None\<close> before
  the table exists.
\<close>

datatype sqlval = SqlNull | SqlInteger int | SqlReal pyfloat | SqlText string

type_synonym row = "sqlval list"

type_synonym database = "row list option"

text \<open>
  How the \<open>sqlite3\<close> module binds a Python object to a parameter: \<open>None\<close>, \<open>int\<close>
  (64 bits), \<open>float\<close> and \<open>str\<close> are supported; SQLite stores a NaN as \<open>NULL\<close>.
\<close>

fun bind :: "pyval \<Rightarrow> pyexc + sqlval" where
  "bind PNone = Inr SqlNull"
| "bind (PBool b) = Inr (SqlInteger (if b then 1 else 0))"
| "bind (PInt n) =
     (if - (2 ^ 63) \<le> n \<and> n < 2 ^ 63 then Inr (SqlInteger n) else Inl OverflowError)"
| "bind (PFloat f) = Inr (if f = NaN then SqlNull else SqlReal f)"
| "bind (PStr s) = Inr (SqlText s)"
| "bind (PList xs) = Inl ProgrammingError"
| "bind (PDict kvs) = Inl ProgrammingError"

text \<open>
  A connection: the rows the database file holds and the rows the connection sees, which
  include the changes of its open transaction.
\<close>

record connection =
  stored :: "row list"
  working :: "row list"

text \<open>\<open>CREATE TABLE IF NOT EXISTS\<close> takes effect at once, outside any transaction.\<close>

definition setup_database :: "database \<Rightarrow> connection" where
  "setup_database db =
     (case db of
        None \<Rightarrow> \<lparr>stored = [], working = []\<rparr>
      | Some rows \<Rightarrow> \<lparr>stored = rows, working = rows\<rparr>)"

text \<open>
  \<open>INSERT OR IGNORE\<close> under \<open>body_md5 TEXT UNIQUE\<close> (column 4 of a row): a row whose
  \<open>body_md5\<close> is not \<open>NULL\<close> and equals that of a row of the table is dropped.
\<close>

definition conflicts :: "row list \<Rightarrow> row \<Rightarrow> bool" where
  "conflicts rows r = (r ! 4 \<noteq> SqlNull \<and> r ! 4 \<in> (\<lambda>r'. r' ! 4) ` set rows)"

definition insert_or_ignore :: "row list \<Rightarrow> row \<Rightarrow> row list" where
  "insert_or_ignore rows r = (if conflicts rows r then rows else rows @ [r])"

definition columns :: "string list" where
  "columns = [''date'', ''source'', ''destination'', ''body'', ''body_md5'', ''llm_output'',
              ''amount'', ''type'', ''transaction_source'', ''category'']"

text \<open>\<open>cursor.execute(insert_query, (sms['date'], ...))\<close> on the connection.\<close>

definition execute_insert :: "connection \<Rightarrow> pydict \<Rightarrow> pyexc + connection" where
  "execute_insert conn sms =
     andthen (sequence (map (dict_item sms) columns))
       (\<lambda>params.
          andthen (sequence (map bind params))
            (\<lambda>r. Inr (conn\<lparr>working := insert_or_ignore (working conn) r\<rparr>)))"

definition commit :: "connection \<Rightarrow> connection" where
  "commit conn = conn\<lparr>stored := working conn\<rparr>"

definition rollback :: "connection \<Rightarrow> connection" where
  "rollback conn = conn\<lparr>working := stored conn\<rparr>"

text \<open>\<open>conn.close()\<close>: what the file holds afterwards.\<close>

definition close :: "connection \<Rightarrow> database" where
  "close conn = Some (stored conn)"

text \<open>
  The loop of \<open>save_to_sqlite\<close>: the connection after the last insert, or the exception
  of the first insert that fails together with the connection at that point.
\<close>

fun insert_all :: "connection \<Rightarrow> pydict list \<Rightarrow> (pyexc \<times> connection) + connection" where
  "insert_all conn [] = Inr conn"
| "insert_all conn (sms # output) =
     (case execute_insert conn (ensure_keys sms) of
        Inl e \<Rightarrow> Inl (e, conn)
      | Inr conn' \<Rightarrow> insert_all conn' output)"

text \<open>
  \<open>save_to_sqlite\<close>: the database afterwards, and the exception raised (\<open>None\<close> when the
  function returns).
\<close>

definition save_to_sqlite :: "database \<Rightarrow> pydict list \<Rightarrow> database \<times> pyexc option" where
  "save_to_sqlite db output =
     (case insert_all (setup_database db) output of
        Inr conn \<Rightarrow> (close (commit conn), None)
      | Inl (e, conn) \<Rightarrow> (close (rollback conn), Some e))"

text \<open>
  \<open>save_to_csv\<close>: the rows written after the header, a row the values of the columns of
  \<open>fieldnames\<close> (which are those of the \<open>INSERT\<close> statement, in its order).
\<close>

definition save_to_csv :: "pydict list \<Rightarrow> pyval list list" where
  "save_to_csv output = map (\<lambda>sms. map (dict_get (ensure_keys sms)) columns) output"

text \<open>\<open>sms_list[:n]\<close>.\<close>

definition slice_upto :: "'a list \<Rightarrow> int \<Rightarrow> 'a list" where
  "slice_upto xs n = (if n < 0 then take (length xs - nat (- n)) xs else take (nat n) xs)"

text \<open>
  \<open>main\<close>: the state is the database and the export file (\<open>None\<close> while it has not been
  written); the result is the state afterwards and the exception raised, if any.
\<close>

definition main ::
  "(string \<Rightarrow> pyexc + string) \<Rightarrow> (pyval \<Rightarrow> string) \<Rightarrow> (pyfloat \<Rightarrow> pyexc + string) \<Rightarrow>
   pyexc + (string \<times> string) list list \<Rightarrow> int option \<Rightarrow>
   database \<times> pyval list list option \<Rightarrow> (database \<times> pyval list list option) \<times> pyexc option" where
  "main generate dumps fromtimestamp doc n st =
     (case st of (db, csv) \<Rightarrow>
        (case parse_sms_xml fromtimestamp doc of
           Inl e \<Rightarrow> ((db, csv), Some e)
         | Inr sms_list \<Rightarrow>
             (case save_to_sqlite db
                     (analyze_sms_list generate dumps
                        (case n of None \<Rightarrow> sms_list | Some k \<Rightarrow> slice_upto sms_list k)) of
                (db', Some e) \<Rightarrow> ((db', csv), Some e)
              | (db', None) \<Rightarrow>
                  ((db', Some (save_to_csv
                     (analyze_sms_list generate dumps
                        (case n of None \<Rightarrow> sms_list | Some k \<Rightarrow> slice_upto sms_list k)))), None))))"

section \<open>Notions of the specification\<close>

text \<open>The sentinel phrases of the instruction template.\<close>

definition sentinels :: "string list" where
  "sentinels = [''Not expense'', ''Amount not clear'', ''Bill payment reminder'',
                ''Credit card bill payment receipt'', ''Money requested'',
                ''Money credited/refunded'']"

text \<open>
  The response interpreter as the specification words it: the text from the first \<open>{\<close>
  to the last \<open>}\<close> of the whole response is parsed; if that fails the whole response is
  parsed; if that fails too the structured object is \<open>None\<close>.
\<close>

definition brace_span :: "string \<Rightarrow> string option" where
  "brace_span s =
     (if upto_last_brace (dropWhile (\<lambda>c. c \<noteq> CHR ''{'') s) = [] then None
      else Some (upto_last_brace (dropWhile (\<lambda>c. c \<noteq> CHR ''{'') s)))"

definition interpret_spec :: "string \<Rightarrow> pyval" where
  "interpret_spec content =
     (case (case brace_span content of None \<Rightarrow> Inl JSONDecodeError | Some m \<Rightarrow> json_loads m) of
        Inr v \<Rightarrow> v
      | Inl e \<Rightarrow> (case json_loads content of Inr v \<Rightarrow> v | Inl e' \<Rightarrow> PNone))"

text \<open>The rows of the table, none before it exists.\<close>

definition table :: "database \<Rightarrow> row list" where
  "table db = (case db of None \<Rightarrow> [] | Some rows \<Rightarrow> rows)"

text \<open>The row an \<open>INSERT\<close> binds for a record, or the exception binding raises.\<close>

definition bound_row :: "pydict \<Rightarrow> pyexc + row" where
  "bound_row sms =
     andthen (sequence (map (dict_item sms) columns)) (\<lambda>params. sequence (map bind params))"

section \<open>Facts about the model\<close>

lemma json_loads_error: "json_loads s = Inl e \<Longrightarrow> e = JSONDecodeError"
  by (auto simp: json_loads_def split: scan.splits if_splits)

lemma map_of_dict_set: "map_of (dict_set d k v) k' = (if k' = k then Some v else map_of d k')"
  by (induction d k v rule: dict_set.induct) auto

lemma analyze_sms_list_append:
  "analyze_sms_list generate dumps (xs @ ys) =
   analyze_sms_list generate dumps xs @ analyze_sms_list generate dumps ys"
  by (induction xs) (auto split: sum.splits)

lemma dict_item_body: "sms_get sms ''body'' = Some b \<Longrightarrow> dict_item sms ''body'' = Inr (Some b)"
  by (auto simp: sms_get_def dict_item_def split: option.splits)

lemma analysis_result_not_dict:
  assumes "sms_get sms ''body'' = Some b" and "analyze_sms generate b = (content, v)"
    and "\<And>d. v \<noteq> PDict d"
  shows "analysis_result generate dumps sms = Inl AttributeError"
proof (cases v)
  case (PDict d)
  with assms(3) show ?thesis by blast
qed (use assms in \<open>simp_all add: analysis_result_def dict_item_body andthen_def method_get_def\<close>)

lemma map_of_dict_merge_dom:
  "map_of a k \<noteq> None \<Longrightarrow> map_of (dict_merge a b) k \<noteq> None"
  unfolding dict_merge_def
  by (induction b arbitrary: a) (auto simp: map_of_dict_set)

lemma map_of_dict_merge_cases:
  "map_of (dict_merge a b) k = Some v \<Longrightarrow> map_of a k = Some v \<or> (k, v) \<in> set b"
  unfolding dict_merge_def
proof (induction b arbitrary: a)
  case Nil
  then show ?case by simp
next
  case (Cons x b)
  obtain k' v' where x: "x = (k', v')" by (cases x)
  from Cons.prems have "map_of (foldl (\<lambda>d (k, v). dict_set d k v) (dict_set a k' v') b) k = Some v"
    by (simp add: x)
  from Cons.IH [OF this] show ?case
    by (auto simp: x map_of_dict_set split: if_splits)
qed

lemma map_of_dict_merge_other:
  "k \<notin> fst ` set b \<Longrightarrow> map_of (dict_merge a b) k = map_of a k"
  unfolding dict_merge_def
  by (induction b arbitrary: a) (auto simp: map_of_dict_set)

lemma sentinels_unparseable:
  "list_all (\<lambda>c. re_search c = None \<and> json_loads c = Inl JSONDecodeError) sentinels"
  by code_simp

lemma defaults_non_null:
  "list_all (\<lambda>k. k = ''date'' \<or> (\<exists>d. map_of defaults k = Some d \<and> d \<noteq> PNone)) columns"
  by (simp add: columns_def defaults_def)

lemma ensure_keys_not_None:
  "k \<in> set columns \<and> k \<noteq> ''date'' \<longrightarrow> dict_get (ensure_keys r) k \<noteq> PNone"
proof
  let ?b = "filter (\<lambda>(k, v). v \<noteq> PNone) r"
  assume k: "k \<in> set columns \<and> k \<noteq> ''date''"
  with defaults_non_null obtain d where d: "map_of defaults k = Some d" "d \<noteq> PNone"
    by (auto simp: list_all_iff)
  then have "map_of (dict_merge defaults ?b) k \<noteq> None"
    by (intro map_of_dict_merge_dom) simp
  then obtain v where v: "map_of (dict_merge defaults ?b) k = Some v"
    by blast
  have "v \<noteq> PNone"
  proof (cases "map_of defaults k = Some v")
    case True
    with d show ?thesis by simp
  next
    case False
    with map_of_dict_merge_cases [OF v] have "(k, v) \<in> set ?b" by blast
    then show ?thesis by simp
  qed
  with v show "dict_get (ensure_keys r) k \<noteq> PNone"
    by (simp add: dict_get_def ensure_keys_def)
qed

lemma ensure_keys_default:
  "(\<forall>v. (k, v) \<in> set r \<longrightarrow> v = PNone)
   \<longrightarrow> dict_get (ensure_keys r) k = dict_get defaults k"
proof
  assume n: "\<forall>v. (k, v) \<in> set r \<longrightarrow> v = PNone"
  have "k \<notin> fst ` set (filter (\<lambda>(k, v). v \<noteq> PNone) r)"
  proof
    assume "k \<in> fst ` set (filter (\<lambda>(k, v). v \<noteq> PNone) r)"
    then obtain v where "(k, v) \<in> set r" "v \<noteq> PNone" by force
    with n show False by blast
  qed
  then have "map_of (ensure_keys r) k = map_of defaults k"
    unfolding ensure_keys_def by (rule map_of_dict_merge_other)
  then show "dict_get (ensure_keys r) k = dict_get defaults k"
    by (simp add: dict_get_def)
qed

lemma defaults_columns:
  "map (dict_get defaults) columns =
     [PNone, PStr [], PStr [], PStr [], PStr [], PStr [], PFloat (Finite 0),
      PStr ''Unknown'', PStr [], PStr ''Unknown'']"
  by (simp add: columns_def defaults_def dict_get_def)

text \<open>Unfolding rules for evaluating the model on concrete inputs.\<close>

lemmas float_eval = floatify_def is_ValueError_def py_float_str_def strip_def is_space_def
  strip_sign_def lower_def decimal_def exponent_def pow10_def to_double_def dbl_overflows_def
  digits_val_def digit_val_def is_digit_def py_float_int_def

lemmas record_eval = analysis_result_def andthen_def dict_item_def method_get_def
  dict_get_default_def sms_get_def of_opt_def json_to_string_def

lemmas sqlite_eval = save_to_sqlite_def setup_database_def execute_insert_def ensure_keys_def
  defaults_def columns_def insert_or_ignore_def conflicts_def commit_def rollback_def close_def
  andthen_def dict_item_def

lemma execute_insert_bound_row:
  "execute_insert conn sms =
     (case bound_row sms of
        Inl e \<Rightarrow> Inl e
      | Inr r \<Rightarrow> Inr (conn\<lparr>working := insert_or_ignore (working conn) r\<rparr>))"
  by (simp add: execute_insert_def bound_row_def andthen_def split: sum.splits)

lemma insert_all_fails:
  "insert_all conn batch = Inl (e, conn') \<Longrightarrow> stored conn' = stored conn"
proof (induction batch arbitrary: conn)
  case Nil
  then show ?case by simp
next
  case (Cons sms batch)
  show ?case
  proof (cases "bound_row (ensure_keys sms)")
    case (Inl e')
    with Cons.prems show ?thesis by (simp add: execute_insert_bound_row)
  next
    case (Inr r)
    with Cons.prems
    have "insert_all (conn\<lparr>working := insert_or_ignore (working conn) r\<rparr>) batch = Inl (e, conn')"
      by (simp add: execute_insert_bound_row)
    from Cons.IH [OF this] show ?thesis by simp
  qed
qed

lemma insert_all_succeeds:
  "insert_all conn batch = Inr conn' \<Longrightarrow>
   stored conn' = stored conn \<and>
   (\<exists>rows. sequence (map (\<lambda>sms. bound_row (ensure_keys sms)) batch) = Inr rows
           \<and> working conn' = foldl insert_or_ignore (working conn) rows)"
proof (induction batch arbitrary: conn)
  case Nil
  then show ?case by simp
next
  case (Cons sms batch)
  show ?case
  proof (cases "bound_row (ensure_keys sms)")
    case (Inl e')
    with Cons.prems show ?thesis by (simp add: execute_insert_bound_row)
  next
    case (Inr r)
    with Cons.prems
    have "insert_all (conn\<lparr>working := insert_or_ignore (working conn) r\<rparr>) batch = Inr conn'"
      by (simp add: execute_insert_bound_row)
    from Cons.IH [OF this] obtain rows where
      "stored conn' = stored conn"
      "sequence (map (\<lambda>sms. bound_row (ensure_keys sms)) batch) = Inr rows"
      "working conn' = foldl insert_or_ignore (insert_or_ignore (working conn) r) rows"
      by auto
    with Inr show ?thesis by (simp add: andthen_def)
  qed
qed

lemma insert_all_total:
  "sequence (map (\<lambda>sms. bound_row (ensure_keys sms)) batch) = Inr rows \<Longrightarrow>
   \<exists>conn'. insert_all conn batch = Inr conn'"
proof (induction batch arbitrary: conn rows)
  case Nil
  then show ?case by simp
next
  case (Cons sms batch)
  then show ?case
    by (auto simp: execute_insert_bound_row andthen_def split: sum.splits)
qed

lemma setup_database_table:
  "stored (setup_database db) = table db" "working (setup_database db) = table db"
  by (simp_all add: setup_database_def table_def split: option.splits)

lemma save_to_sqlite_fails:
  "save_to_sqlite db batch = (db', Some e) \<Longrightarrow> db' = Some (table db)"
  by (auto simp: save_to_sqlite_def close_def rollback_def setup_database_table
           split: sum.splits dest: insert_all_fails)

lemma save_to_sqlite_succeeds:
  assumes "save_to_sqlite db batch = (db', None)"
  shows "\<exists>rows. sequence (map (\<lambda>sms. bound_row (ensure_keys sms)) batch) = Inr rows
               \<and> db' = Some (foldl insert_or_ignore (table db) rows)"
proof -
  from assms obtain conn where c: "insert_all (setup_database db) batch = Inr conn"
    and d: "db' = close (commit conn)"
    by (auto simp: save_to_sqlite_def split: sum.splits)
  from insert_all_succeeds [OF c] d show ?thesis
    by (auto simp: close_def commit_def setup_database_table)
qed

lemma save_to_sqlite_rows:
  assumes "sequence (map (\<lambda>sms. bound_row (ensure_keys sms)) batch) = Inr rows"
  shows "save_to_sqlite db batch = (Some (foldl insert_or_ignore (table db) rows), None)"
proof -
  from insert_all_total [OF assms] obtain conn where
    c: "insert_all (setup_database db) batch = Inr conn" by blast
  from insert_all_succeeds [OF c] assms
  have "working conn = foldl insert_or_ignore (table db) rows"
    by (simp add: setup_database_table)
  with c show ?thesis by (simp add: save_to_sqlite_def close_def commit_def)
qed

lemma main_fails:
  assumes "main generate dumps fromtimestamp doc n (db, csv) = (st', Some e)"
  shows "table (fst st') = table db \<and> snd st' = csv"
proof (cases "parse_sms_xml fromtimestamp doc")
  case (Inl e')
  with assms show ?thesis by (auto simp: main_def)
next
  case (Inr sms_list)
  let ?out = "analyze_sms_list generate dumps
                (case n of None \<Rightarrow> sms_list | Some k \<Rightarrow> slice_upto sms_list k)"
  obtain db' res where s: "save_to_sqlite db ?out = (db', res)"
    by (cases "save_to_sqlite db ?out")
  show ?thesis
  proof (cases res)
    case None
    with assms Inr s show ?thesis by (simp add: main_def)
  next
    case (Some e')
    with s have "db' = Some (table db)" by (simp add: save_to_sqlite_fails)
    with assms Inr s Some show ?thesis by (auto simp: main_def table_def)
  qed
qed

lemma insert_all_raises:
  "insert_all conn batch = Inl (e, conn') \<Longrightarrow>
   \<exists>sms \<in> set batch. bound_row (ensure_keys sms) = Inl e"
proof (induction batch arbitrary: conn)
  case Nil
  then show ?case by simp
next
  case (Cons sms batch)
  show ?case
  proof (cases "bound_row (ensure_keys sms)")
    case (Inl e')
    with Cons.prems show ?thesis by (simp add: execute_insert_bound_row)
  next
    case (Inr r)
    with Cons.prems
    have "insert_all (conn\<lparr>working := insert_or_ignore (working conn) r\<rparr>) batch = Inl (e, conn')"
      by (simp add: execute_insert_bound_row)
    from Cons.IH [OF this] show ?thesis by simp
  qed
qed

lemma sequence_Inr: "sequence xs = Inr vs \<Longrightarrow> xs = map Inr vs"
  by (induction xs arbitrary: vs) (auto simp: andthen_def split: sum.splits)

lemma bound_row_md5:
  assumes "bound_row d = Inr r" and "map_of d ''body_md5'' = Some (PStr s)"
  shows "r ! 4 = SqlText s"
proof -
  from assms(1) obtain params where
    p: "sequence (map (dict_item d) columns) = Inr params"
    and b: "sequence (map bind params) = Inr r"
    by (auto simp: bound_row_def andthen_def split: sum.splits)
  from sequence_Inr [OF p] have m: "map (dict_item d) columns = map Inr params" .
  then have "length params = 10"
    using length_map [of "dict_item d" columns] length_map [of Inr params]
    by (simp add: columns_def)
  moreover from m have "map (dict_item d) columns ! 4 = map Inr params ! 4" by simp
  ultimately have "dict_item d ''body_md5'' = Inr (params ! 4)"
    by (simp add: columns_def)
  with assms(2) have v: "params ! 4 = PStr s" by (simp add: dict_item_def)
  from sequence_Inr [OF b] have m': "map bind params = map Inr r" .
  then have "length r = 10"
    using length_map [of bind params] length_map [of Inr r] \<open>length params = 10\<close> by simp
  moreover from m' have "map bind params ! 4 = map Inr r ! 4" by simp
  ultimately have "bind (params ! 4) = Inr (r ! 4)"
    using \<open>length params = 10\<close> by simp
  with v show ?thesis by simp
qed

lemma analysis_result_md5:
  assumes "analysis_result generate dumps sms = Inr r" and "(''body_md5'', v) \<in> set r"
  shows "v = of_opt (sms_get sms ''body_md5'')"
proof -
  from assms(1) obtain a b c l am ty ts de ca where
    "r = [(''date'', a), (''source'', b), (''body'', c),
          (''body_md5'', of_opt (sms_get sms ''body_md5'')), (''llm_output'', l), (''amount'', am),
          (''type'', ty), (''transaction_source'', ts), (''destination'', de), (''category'', ca)]"
    by (auto simp: analysis_result_def andthen_def split: sum.splits prod.splits if_splits)
  with assms(2) show ?thesis by simp
qed

lemma analyze_sms_list_member:
  "r \<in> set (analyze_sms_list generate dumps sms_list) \<Longrightarrow>
   \<exists>sms. analysis_result generate dumps sms = Inr r"
  by (induction sms_list) (auto split: if_splits sum.splits)

lemma ensure_keys_md5:
  assumes "\<And>v. (''body_md5'', v) \<in> set r \<Longrightarrow> v = PNone \<or> (\<exists>s. v = PStr s)"
  shows "\<exists>s. map_of (ensure_keys r) ''body_md5'' = Some (PStr s)"
proof -
  let ?b = "filter (\<lambda>(k, v). v \<noteq> PNone) r"
  have d: "map_of defaults ''body_md5'' = Some (PStr [])"
    by (simp add: defaults_def)
  then have "map_of (dict_merge defaults ?b) ''body_md5'' \<noteq> None"
    by (intro map_of_dict_merge_dom) simp
  then obtain v where v: "map_of (dict_merge defaults ?b) ''body_md5'' = Some v"
    by blast
  have "\<exists>s. v = PStr s"
  proof (cases "map_of defaults ''body_md5'' = Some v")
    case True
    with d show ?thesis by simp
  next
    case False
    with map_of_dict_merge_cases [OF v] have "(''body_md5'', v) \<in> set ?b" by blast
    then have "(''body_md5'', v) \<in> set r" "v \<noteq> PNone" by simp_all
    with assms show ?thesis by blast
  qed
  with v show ?thesis by (auto simp: ensure_keys_def)
qed

lemma foldl_insert_mono: "set t \<subseteq> set (foldl insert_or_ignore t rs)"
proof (induction rs arbitrary: t)
  case Nil
  then show ?case by simp
next
  case (Cons r rs)
  have "set t \<subseteq> set (insert_or_ignore t r)" by (auto simp: insert_or_ignore_def)
  also have "\<dots> \<subseteq> set (foldl insert_or_ignore (insert_or_ignore t r) rs)" by (rule Cons.IH)
  finally show ?case by simp
qed

lemma foldl_insert_keys:
  "r \<in> set rs \<Longrightarrow> r ! 4 \<noteq> SqlNull \<Longrightarrow>
   r ! 4 \<in> (\<lambda>r'. r' ! 4) ` set (foldl insert_or_ignore t rs)"
proof (induction rs arbitrary: t)
  case Nil
  then show ?case by simp
next
  case (Cons x rs)
  show ?case
  proof (cases "r = x")
    case True
    with Cons.prems(2) have "r ! 4 \<in> (\<lambda>r'. r' ! 4) ` set (insert_or_ignore t x)"
      by (auto simp: insert_or_ignore_def conflicts_def)
    with foldl_insert_mono [of "insert_or_ignore t x" rs] show ?thesis by auto
  next
    case False
    with Cons.prems have "r \<in> set rs" by simp
    from Cons.IH [OF this Cons.prems(2)] show ?thesis by simp
  qed
qed

lemma foldl_insert_conflicts:
  "\<forall>r \<in> set rs. conflicts t r \<Longrightarrow> foldl insert_or_ignore t rs = t"
  by (induction rs) (auto simp: insert_or_ignore_def)

lemma foldl_insert_idem:
  assumes "\<forall>r \<in> set rs. r ! 4 \<noteq> SqlNull"
  shows "foldl insert_or_ignore (foldl insert_or_ignore t rs) rs = foldl insert_or_ignore t rs"
proof (rule foldl_insert_conflicts, rule ballI)
  fix r assume "r \<in> set rs"
  with assms foldl_insert_keys [of r rs t]
  show "conflicts (foldl insert_or_ignore t rs) r"
    by (simp add: conflicts_def)
qed

lemma pipeline_rows_keyed:
  assumes "sequence (map (\<lambda>sms. bound_row (ensure_keys sms))
             (analyze_sms_list generate dumps sms_list)) = Inr rows"
  shows "\<forall>r \<in> set rows. r ! 4 \<noteq> SqlNull"
proof
  fix r assume "r \<in> set rows"
  moreover from sequence_Inr [OF assms]
  have "map (\<lambda>sms. bound_row (ensure_keys sms)) (analyze_sms_list generate dumps sms_list)
        = map Inr rows" .
  ultimately have "Inr r \<in> set (map (\<lambda>sms. bound_row (ensure_keys sms))
                                (analyze_sms_list generate dumps sms_list))"
    by simp
  then obtain rec where rec: "rec \<in> set (analyze_sms_list generate dumps sms_list)"
    and br: "bound_row (ensure_keys rec) = Inr r"
    by auto
  from analyze_sms_list_member [OF rec] obtain sms where
    "analysis_result generate dumps sms = Inr rec" by blast
  then have "\<And>v. (''body_md5'', v) \<in> set rec \<Longrightarrow> v = PNone \<or> (\<exists>s. v = PStr s)"
    by (auto dest!: analysis_result_md5 simp: of_opt_def split: option.splits)
  from ensure_keys_md5 [OF this] obtain s where
    "map_of (ensure_keys rec) ''body_md5'' = Some (PStr s)" by blast
  from bound_row_md5 [OF br this] show "r ! 4 \<noteq> SqlNull" by simp
qed

lemma digitpart_digits: "\<forall>c \<in> set ds. is_digit c \<Longrightarrow> digitpart ds = (ds, [])"
proof (induction ds rule: digitpart.induct)
  case (1 c d cs)
  then have "d \<noteq> CHR ''_''" by (auto simp: is_digit_def)
  with 1 show ?case by simp
qed simp_all

lemma strip_digits:
  assumes "\<forall>c \<in> set ds. is_digit c"
  shows "strip ds = ds"
proof -
  have n: "\<And>c. is_digit c \<Longrightarrow> \<not> is_space c"
    by (auto simp: is_digit_def is_space_def)
  have d: "\<And>xs. \<forall>c \<in> set xs. is_digit c \<Longrightarrow> dropWhile is_space xs = xs"
  proof -
    fix xs :: string
    assume "\<forall>c \<in> set xs. is_digit c"
    then show "dropWhile is_space xs = xs" using n by (cases xs) auto
  qed
  from assms have "dropWhile is_space ds = ds" by (rule d)
  moreover from assms have "dropWhile is_space (rev ds) = rev ds" by (intro d) simp
  ultimately show ?thesis by (simp add: strip_def)
qed

lemma py_int_digits:
  assumes "ds \<noteq> []" and "\<forall>c \<in> set ds. is_digit c"
  shows "py_int ds = Inr (digits_val ds)"
proof -
  from assms obtain c cs where ds: "ds = c # cs" and "is_digit c"
    by (cases ds) auto
  then have "strip_sign ds = (False, ds)"
    by (auto simp: strip_sign_def is_digit_def)
  with assms show ?thesis
    by (simp add: py_int_def strip_digits digitpart_digits)
qed

lemma foldl_digits_zeros:
  "foldl (\<lambda>a c. 10 * a + digit_val c) a (replicate n (CHR ''0'')) = a * 10 ^ n"
  by (induction n arbitrary: a) (simp_all add: digit_val_def)

lemma py_int_power_of_ten: "py_int (CHR ''1'' # replicate n (CHR ''0'')) = Inr (10 ^ n)"
proof -
  have "py_int (CHR ''1'' # replicate n (CHR ''0'')) = Inr (digits_val (CHR ''1'' # replicate n (CHR ''0'')))"
    by (rule py_int_digits) (auto simp: is_digit_def)
  also have "digits_val (CHR ''1'' # replicate n (CHR ''0'')) = 10 ^ n"
  proof -
    have "digit_val (CHR ''1'') = 1" by (simp add: digit_val_def)
    then show ?thesis by (simp add: digits_val_def foldl_digits_zeros)
  qed
  finally show ?thesis .
qed

lemma true_div_overflow: "true_div (10 ^ 320) 1000 = Inl OverflowError"
  by (simp add: true_div_def dbl_overflows_def)

lemma convert_date_overflow:
  "convert_date fromtimestamp (Some (CHR ''1'' # replicate 320 (CHR ''0''))) = Inl OverflowError"
  by (simp add: convert_date_def andthen_def py_int_power_of_ten true_div_def dbl_overflows_def
        is_ValueError_def is_TypeError_def)

lemma convert_date_not_numeric: "convert_date fromtimestamp (Some ''19 Dec 2022'') = Inr None"
  by (simp add: convert_date_def andthen_def py_int_def strip_def is_space_def strip_sign_def
        is_digit_def is_ValueError_def)

lemma upto_last_brace_split:
  "\<exists>w. line = upto_last_brace line @ w \<and> CHR ''}'' \<notin> set w"
proof -
  let ?P = "\<lambda>c. c \<noteq> CHR ''}''"
  have "rev (takeWhile ?P (rev line) @ dropWhile ?P (rev line))
        = rev (dropWhile ?P (rev line)) @ rev (takeWhile ?P (rev line))"
    by (rule rev_append)
  then have "line = upto_last_brace line @ rev (takeWhile ?P (rev line))"
    by (simp only: takeWhile_dropWhile_id rev_rev_ident upto_last_brace_def)
  moreover have "CHR ''}'' \<notin> set (rev (takeWhile ?P (rev line)))"
    using set_takeWhileD [of "CHR ''}''" ?P "rev line"] by auto
  ultimately show ?thesis by blast
qed

lemma upto_last_brace_empty: "upto_last_brace line = [] \<longleftrightarrow> CHR ''}'' \<notin> set line"
  by (auto simp: upto_last_brace_def dropWhile_eq_Nil_conv)

lemma upto_last_brace_last:
  assumes "upto_last_brace line \<noteq> []"
  shows "last (upto_last_brace line) = CHR ''}''"
proof -
  let ?d = "dropWhile (\<lambda>c. c \<noteq> CHR ''}'') (rev line)"
  from assms have d: "?d \<noteq> []" by (simp add: upto_last_brace_def)
  then have "\<not> hd ?d \<noteq> CHR ''}''" by (rule hd_dropWhile)
  moreover from d have "last (rev ?d) = hd ?d" by (simp add: last_rev)
  ultimately show ?thesis by (simp add: upto_last_brace_def)
qed

lemma upto_last_brace_subset: "set (upto_last_brace line) \<subseteq> set line"
proof -
  from upto_last_brace_split [of line] obtain w where "line = upto_last_brace line @ w"
    by blast
  then have "set line = set (upto_last_brace line) \<union> set w"
    by (metis set_append)
  then show ?thesis by blast
qed

lemma takeWhile_line_rest:
  assumes "takeWhile (\<lambda>c. c \<noteq> CHR 0x0A) cs = u @ w"
  shows "takeWhile (\<lambda>c. c \<noteq> CHR 0x0A) (w @ dropWhile (\<lambda>c. c \<noteq> CHR 0x0A) cs) = w"
proof -
  let ?P = "\<lambda>c. c \<noteq> CHR 0x0A"
  have "set w \<subseteq> set (takeWhile ?P cs)" using assms by simp
  then have w: "\<And>c. c \<in> set w \<Longrightarrow> ?P c" using set_takeWhileD [of _ ?P cs] by blast
  have t: "takeWhile ?P (dropWhile ?P cs) = []"
  proof (cases "dropWhile ?P cs")
    case Nil
    show ?thesis unfolding Nil by simp
  next
    case (Cons x xs)
    then have "dropWhile ?P cs \<noteq> []" by simp
    then have "\<not> ?P (hd (dropWhile ?P cs))" by (rule hd_dropWhile)
    then have "\<not> ?P x" unfolding Cons by simp
    then have "takeWhile ?P (x # xs) = []" by simp
    then show ?thesis unfolding Cons .
  qed
  have "takeWhile ?P (w @ dropWhile ?P cs) = w @ takeWhile ?P (dropWhile ?P cs)"
    by (rule takeWhile_append2) (rule w)
  with t show ?thesis by simp
qed

lemma re_search_Some:
  "re_search s = Some m \<Longrightarrow>
   \<exists>pre post. s = pre @ m @ post \<and> hd m = CHR ''{'' \<and> last m = CHR ''}''
      \<and> CHR 0x0A \<notin> set m
      \<and> CHR ''}'' \<notin> set (takeWhile (\<lambda>c. c \<noteq> CHR 0x0A) post)
      \<and> (\<forall>i < length pre. pre ! i = CHR ''{'' \<longrightarrow>
            CHR ''}'' \<notin> set (takeWhile (\<lambda>c. c \<noteq> CHR 0x0A) (drop (Suc i) s)))"
proof (induction s)
  case Nil
  then show ?case by simp
next
  case (Cons c cs)
  let ?P = "\<lambda>c. c \<noteq> CHR 0x0A"
  let ?L = "takeWhile ?P cs"
  let ?U = "upto_last_brace ?L"
  show ?case
  proof (cases "c = CHR ''{'' \<and> ?U \<noteq> []")
    case True
    with Cons.prems have m: "m = c # ?U" by simp
    from upto_last_brace_split [of ?L] obtain w where
      w: "?L = ?U @ w" "CHR ''}'' \<notin> set w" by blast
    let ?post = "w @ dropWhile ?P cs"
    from w(1) have "?L @ dropWhile ?P cs = (?U @ w) @ dropWhile ?P cs"
      by (rule arg_cong [where f = "\<lambda>x. x @ dropWhile ?P cs"])
    then have cs: "cs = ?U @ ?post"
      by (simp only: takeWhile_dropWhile_id append_assoc)
    have s: "c # cs = [] @ m @ ?post" using m cs by simp
    have h: "hd m = CHR ''{''" using m True by simp
    have l: "last m = CHR ''}''" using m True upto_last_brace_last [of ?L] by simp
    have "set ?U \<subseteq> set ?L" by (rule upto_last_brace_subset)
    then have "CHR 0x0A \<notin> set ?U" using set_takeWhileD [of "CHR 0x0A" ?P cs] by blast
    with m True have n: "CHR 0x0A \<notin> set m" by simp
    have "takeWhile ?P ?post = w" using w(1) by (rule takeWhile_line_rest)
    with w(2) have p: "CHR ''}'' \<notin> set (takeWhile ?P ?post)" by simp
    from s h l n p show ?thesis
      by (intro exI [of _ "[]"] exI [of _ ?post]) simp
  next
    case False
    with Cons.prems have "re_search cs = Some m" by auto
    from Cons.IH [OF this] obtain pre post where
      ih: "cs = pre @ m @ post" "hd m = CHR ''{''" "last m = CHR ''}''"
          "CHR 0x0A \<notin> set m" "CHR ''}'' \<notin> set (takeWhile ?P post)"
          "\<forall>i < length pre. pre ! i = CHR ''{'' \<longrightarrow>
             CHR ''}'' \<notin> set (takeWhile ?P (drop (Suc i) cs))"
      by blast
    have first: "\<forall>i < length (c # pre). (c # pre) ! i = CHR ''{'' \<longrightarrow>
             CHR ''}'' \<notin> set (takeWhile ?P (drop (Suc i) (c # cs)))"
    proof (intro allI impI)
      fix i assume i: "i < length (c # pre)" and b: "(c # pre) ! i = CHR ''{''"
      show "CHR ''}'' \<notin> set (takeWhile ?P (drop (Suc i) (c # cs)))"
      proof (cases i)
        case 0
        with b False have "?U = []" by simp
        then have "CHR ''}'' \<notin> set ?L" by (simp add: upto_last_brace_empty)
        with 0 show ?thesis by simp
      next
        case (Suc j)
        with i b ih(6) show ?thesis by simp
      qed
    qed
    from ih(1) have "c # cs = (c # pre) @ m @ post" by simp
    with ih(2-5) first show ?thesis by blast
  qed
qed

lemma re_search_None:
  "re_search s = None \<Longrightarrow>
   \<forall>i < length s. s ! i = CHR ''{'' \<longrightarrow>
     CHR ''}'' \<notin> set (takeWhile (\<lambda>c. c \<noteq> CHR 0x0A) (drop (Suc i) s))"
proof (induction s)
  case Nil
  then show ?case by simp
next
  case (Cons c cs)
  let ?P = "\<lambda>c. c \<noteq> CHR 0x0A"
  from Cons.prems have nomatch: "\<not> (c = CHR ''{'' \<and> upto_last_brace (takeWhile ?P cs) \<noteq> [])"
    by (auto split: if_splits)
  with Cons.prems have "re_search cs = None" by auto
  from Cons.IH [OF this] have ih: "\<forall>i < length cs. cs ! i = CHR ''{'' \<longrightarrow>
     CHR ''}'' \<notin> set (takeWhile ?P (drop (Suc i) cs))" .
  show ?case
  proof (intro allI impI)
    fix i assume i: "i < length (c # cs)" and b: "(c # cs) ! i = CHR ''{''"
    show "CHR ''}'' \<notin> set (takeWhile ?P (drop (Suc i) (c # cs)))"
    proof (cases i)
      case 0
      with b nomatch have "upto_last_brace (takeWhile ?P cs) = []" by simp
      then have "CHR ''}'' \<notin> set (takeWhile ?P cs)" by (simp add: upto_last_brace_empty)
      with 0 show ?thesis by simp
    next
      case (Suc j)
      with i b ih show ?thesis by simp
    qed
  qed
qed

lemma analyze_sms_layers:
  assumes "generate (prompt sms) = Inr content"
  shows "analyze_sms generate sms =
     (content,
      case re_search content of
        Some m \<Rightarrow>
          (case json_loads m of
             Inr v \<Rightarrow> v
           | Inl e \<Rightarrow> (case json_loads content of Inr v \<Rightarrow> v | Inl e' \<Rightarrow> PNone))
      | None \<Rightarrow> (case json_loads content of Inr v \<Rightarrow> v | Inl e \<Rightarrow> PDict []))"
  using assms
  by (auto simp: analyze_sms_def split: option.splits sum.splits dest: json_loads_error)

lemma replicate_if: "replicate n x = (if n = 0 then [] else x # replicate (n - 1) x)"
  by (cases n) simp_all

lemma md5_hex_textcoll_a:
  "md5_hex ''TEXTCOLLBYfGiJUETHQ4hAcKSMd5zYpgqf1YRDhkmxHkhPWptrkoyz28wnI9V0aHeAuaKnak'' = ''faad49866e9498fc1719f5289e7a0269''"
proof -
  have m: "map of_char ''TEXTCOLLBYfGiJUETHQ4hAcKSMd5zYpgqf1YRDhkmxHkhPWptrkoyz28wnI9V0aHeAuaKnak'' =
      ([
       84, 69, 88, 84, 67, 79, 76, 76, 66, 89, 102, 71, 105, 74, 85, 69,
       84, 72, 81, 52, 104, 65, 99, 75, 83, 77, 100, 53, 122, 89, 112, 103,
       113, 102, 49, 89, 82, 68, 104, 107, 109, 120, 72, 107, 104, 80, 87, 112,
       116, 114, 107, 111, 121, 122, 50, 56, 119, 110, 73, 57, 86, 48, 97, 72,
       101, 65, 117, 97, 75, 110, 97, 107] :: nat list)"
    by simp
  have l: "length ([
       84, 69, 88, 84, 67, 79, 76, 76, 66, 89, 102, 71, 105, 74, 85, 69,
       84, 72, 81, 52, 104, 65, 99, 75, 83, 77, 100, 53, 122, 89, 112, 103,
       113, 102, 49, 89, 82, 68, 104, 107, 109, 120, 72, 107, 104, 80, 87, 112,
       116, 114, 107, 111, 121, 122, 50, 56, 119, 110, 73, 57, 86, 48, 97, 72,
       101, 65, 117, 97, 75, 110, 97, 107] :: nat list) = 72"
    by simp
  have p: "md5_pad [
       84, 69, 88, 84, 67, 79, 76, 76, 66, 89, 102, 71, 105, 74, 85, 69,
       84, 72, 81, 52, 104, 65, 99, 75, 83, 77, 100, 53, 122, 89, 112, 103,
       113, 102, 49, 89, 82, 68, 104, 107, 109, 120, 72, 107, 104, 80, 87, 112,
       116, 114, 107, 111, 121, 122, 50, 56, 119, 110, 73, 57, 86, 48, 97, 72,
       101, 65, 117, 97, 75, 110, 97, 107] =
      [
       84, 69, 88, 84, 67, 79, 76, 76, 66, 89, 102, 71, 105, 74, 85, 69,
       84, 72, 81, 52, 104, 65, 99, 75, 83, 77, 100, 53, 122, 89, 112, 103,
       113, 102, 49, 89, 82, 68, 104, 107, 109, 120, 72, 107, 104, 80, 87, 112,
       116, 114, 107, 111, 121, 122, 50, 56, 119, 110, 73, 57, 86, 48, 97, 72,
       101, 65, 117, 97, 75, 110, 97, 107, 128, 0, 0, 0, 0, 0, 0, 0,
       0, 0, 0, 0, 0, 0, 0, 0, 0, 0, 0, 0, 0, 0, 0, 0,
       0, 0, 0, 0, 0, 0, 0, 0, 0, 0, 0, 0, 0, 0, 0, 0,
       0, 0, 0, 0, 0, 0, 0, 0, 64, 2, 0, 0, 0, 0, 0, 0]"
    unfolding md5_pad_def l by (simp add: le_bytes4_def replicate_if)
  have d: "md5 [
       84, 69, 88, 84, 67, 79, 76, 76, 66, 89, 102, 71, 105, 74, 85, 69,
       84, 72, 81, 52, 104, 65, 99, 75, 83, 77, 100, 53, 122, 89, 112, 103,
       113, 102, 49, 89, 82, 68, 104, 107, 109, 120, 72, 107, 104, 80, 87, 112,
       116, 114, 107, 111, 121, 122, 50, 56, 119, 110, 73, 57, 86, 48, 97, 72,
       101, 65, 117, 97, 75, 110, 97, 107] =
      [
       250, 173, 73, 134, 110, 148, 152, 252, 23, 25, 245, 40, 158, 122, 2, 105]"
    unfolding md5_def p
    by (simp add: md5_blocks.simps md5_block_def md5_loop.simps md5_F_def md5_g_def md5_K_def
          md5_s_def add32_def not32_def rotl32_def le_bytes4_def)
  show ?thesis
    unfolding md5_hex_def m d by (simp add: hexdigest_def hex_digit_def)
qed

lemma md5_hex_textcoll_b:
  "md5_hex ''TEXTCOLLBYfGiJUETHQ4hEcKSMd5zYpgqf1YRDhkmxHkhPWptrkoyz28wnI9V0aHeAuaKnak'' = ''faad49866e9498fc1719f5289e7a0269''"
proof -
  have m: "map of_char ''TEXTCOLLBYfGiJUETHQ4hEcKSMd5zYpgqf1YRDhkmxHkhPWptrkoyz28wnI9V0aHeAuaKnak'' =
      ([
       84, 69, 88, 84, 67, 79, 76, 76, 66, 89, 102, 71, 105, 74, 85, 69,
       84, 72, 81, 52, 104, 69, 99, 75, 83, 77, 100, 53, 122, 89, 112, 103,
       113, 102, 49, 89, 82, 68, 104, 107, 109, 120, 72, 107, 104, 80, 87, 112,
       116, 114, 107, 111, 121, 122, 50, 56, 119, 110, 73, 57, 86, 48, 97, 72,
       101, 65, 117, 97, 75, 110, 97, 107] :: nat list)"
    by simp
  have l: "length ([
       84, 69, 88, 84, 67, 79, 76, 76, 66, 89, 102, 71, 105, 74, 85, 69,
       84, 72, 81, 52, 104, 69, 99, 75, 83, 77, 100, 53, 122, 89, 112, 103,
       113, 102, 49, 89, 82, 68, 104, 107, 109, 120, 72, 107, 104, 80, 87, 112,
       116, 114, 107, 111, 121, 122, 50, 56, 119, 110, 73, 57, 86, 48, 97, 72,
       101, 65, 117, 97, 75, 110, 97, 107] :: nat list) = 72"
    by simp
  have p: "md5_pad [
       84, 69, 88, 84, 67, 79, 76, 76, 66, 89, 102, 71, 105, 74, 85, 69,
       84, 72, 81, 52, 104, 69, 99, 75, 83, 77, 100, 53, 122, 89, 112, 103,
       113, 102, 49, 89, 82, 68, 104, 107, 109, 120, 72, 107, 104, 80, 87, 112,
       116, 114, 107, 111, 121, 122, 50, 56, 119, 110, 73, 57, 86, 48, 97, 72,
       101, 65, 117, 97, 75, 110, 97, 107] =
      [
       84, 69, 88, 84, 67, 79, 76, 76, 66, 89, 102, 71, 105, 74, 85, 69,
       84, 72, 81, 52, 104, 69, 99, 75, 83, 77, 100, 53, 122, 89, 112, 103,
       113, 102, 49, 89, 82, 68, 104, 107, 109, 120, 72, 107, 104, 80, 87, 112,
       116, 114, 107, 111, 121, 122, 50, 56, 119, 110, 73, 57, 86, 48, 97, 72,
       101, 65, 117, 97, 75, 110, 97, 107, 128, 0, 0, 0, 0, 0, 0, 0,
       0, 0, 0, 0, 0, 0, 0, 0, 0, 0, 0, 0, 0, 0, 0, 0,
       0, 0, 0, 0, 0, 0, 0, 0, 0, 0, 0, 0, 0, 0, 0, 0,
       0, 0, 0, 0, 0, 0, 0, 0, 64, 2, 0, 0, 0, 0, 0, 0]"
    unfolding md5_pad_def l by (simp add: le_bytes4_def replicate_if)
  have d: "md5 [
       84, 69, 88, 84, 67, 79, 76, 76, 66, 89, 102, 71, 105, 74, 85, 69,
       84, 72, 81, 52, 104, 69, 99, 75, 83, 77, 100, 53, 122, 89, 112, 103,
       113, 102, 49, 89, 82, 68, 104, 107, 109, 120, 72, 107, 104, 80, 87, 112,
       116, 114, 107, 111, 121, 122, 50, 56, 119, 110, 73, 57, 86, 48, 97, 72,
       101, 65, 117, 97, 75, 110, 97, 107] =
      [
       250, 173, 73, 134, 110, 148, 152, 252, 23, 25, 245, 40, 158, 122, 2, 105]"
    unfolding md5_def p
    by (simp add: md5_blocks.simps md5_block_def md5_loop.simps md5_F_def md5_g_def md5_K_def
          md5_s_def add32_def not32_def rotl32_def le_bytes4_def)
  show ?thesis
    unfolding md5_hex_def m d by (simp add: hexdigest_def hex_digit_def)
qed

lemma hexdigest_length: "length (hexdigest bs) = 2 * length bs"
  by (induction bs) (simp_all add: hexdigest_def)

lemma md5_length: "length (md5 bs) = 16"
  by (simp add: md5_def le_bytes4_def split: prod.splits)

lemma md5_hex_length: "length (md5_hex s) = 32"
  by (simp add: md5_hex_def hexdigest_length md5_length)

lemma hex_digit_in: "n < 16 \<Longrightarrow> hex_digit n \<in> set ''0123456789abcdef''"
  unfolding hex_digit_def by (rule nth_mem) simp

lemma md5_bytes: "b \<in> set (md5 bs) \<Longrightarrow> b < 256"
  by (auto simp: md5_def le_bytes4_def split: prod.splits)

lemma hexdigest_chars:
  assumes "\<And>b. b \<in> set bs \<Longrightarrow> b < 256"
  shows "set (hexdigest bs) \<subseteq> set ''0123456789abcdef''"
proof
  fix c assume "c \<in> set (hexdigest bs)"
  then obtain b where b: "b \<in> set bs" and c: "c = hex_digit (b div 16) \<or> c = hex_digit (b mod 16)"
    by (auto simp: hexdigest_def)
  from assms [OF b] have "b div 16 < 16" by simp
  then have h: "hex_digit (b div 16) \<in> set ''0123456789abcdef''"
    by (rule hex_digit_in)
  have "b mod 16 < 16" by simp
  then have l: "hex_digit (b mod 16) \<in> set ''0123456789abcdef''"
    by (rule hex_digit_in)
  from c h l show "c \<in> set ''0123456789abcdef''" by blast
qed

lemma md5_hex_chars: "set (md5_hex s) \<subseteq> set ''0123456789abcdef''"
  unfolding md5_hex_def by (rule hexdigest_chars) (rule md5_bytes)

lemma parse_sms_fingerprint:
  assumes "parse_sms fromtimestamp attrib = Inr sms"
    and "map_of (attrib_dict attrib) ''body'' = Some (Some b)"
  shows "sms_get sms ''body'' = Some (remove_newlines_non_ascii b)
         \<and> sms_get sms ''body_md5'' = Some (md5_hex (remove_newlines_non_ascii b))"
  using assms
  by (auto simp: parse_sms_def andthen_def sms_get_def map_of_dict_set
           split: option.splits sum.splits)

section \<open>The claims\<close>

text \<open>
  C9. A message whose body is missing or empty, or whose structured object is \<open>None\<close>,
  adds no record to the output of \<open>analyze_sms_list\<close>, and the messages before and after
  it are processed as if it were not there: the result is a list, never an exception.
\<close>

theorem skip_absent_or_empty:
  assumes "sms_get sms ''body'' = None \<or> sms_get sms ''body'' = Some []
           \<or> (\<exists>b. sms_get sms ''body'' = Some b \<and> snd (analyze_sms generate b) = PNone)"
  shows "analyze_sms_list generate dumps (pre @ sms # post) =
         analyze_sms_list generate dumps pre @ analyze_sms_list generate dumps post"
proof -
  have one: "analyze_sms_list generate dumps [sms] = []"
  proof (cases "truthy (of_opt (sms_get sms ''body''))")
    case False
    then show ?thesis by simp
  next
    case True
    then obtain b where b: "sms_get sms ''body'' = Some b" "b \<noteq> []"
      by (cases "sms_get sms ''body''") (auto simp: of_opt_def)
    with assms have "snd (analyze_sms generate b) = PNone" by auto
    then obtain content where "analyze_sms generate b = (content, PNone)"
      by (cases "analyze_sms generate b") auto
    with b have "analysis_result generate dumps sms = Inl AttributeError"
      by (intro analysis_result_not_dict) auto
    with True show ?thesis by simp
  qed
  have "analyze_sms_list generate dumps (pre @ sms # post) =
        analyze_sms_list generate dumps pre @ analyze_sms_list generate dumps [sms]
          @ analyze_sms_list generate dumps post"
    using analyze_sms_list_append [of generate dumps pre "[sms] @ post"]
          analyze_sms_list_append [of generate dumps "[sms]" post]
    by simp
  with one show ?thesis by simp
qed

theorem skip_absent_or_empty_witness:
  "snd (analyze_sms (\<lambda>p. Inr ''{oops}'') ''hi'') = PNone
   \<and> analyze_sms_list (\<lambda>p. Inr ''{oops}'') (\<lambda>v. ''null'')
        ([[(''body'', Some [])]] @ [(''body'', Some ''hi'')] # [[(''address'', Some ''VM-SBI'')]]) = []"
proof -
  have a: "snd (analyze_sms (\<lambda>p. Inr ''{oops}'') ''hi'') = PNone"
    by code_simp
  have h: "sms_get [(''body'', Some ''hi'')] ''body'' = None
           \<or> sms_get [(''body'', Some ''hi'')] ''body'' = Some []
           \<or> (\<exists>b. sms_get [(''body'', Some ''hi'')] ''body'' = Some b
                  \<and> snd (analyze_sms (\<lambda>p. Inr ''{oops}'') b) = PNone)"
    using a by (simp add: sms_get_def)
  have e: "analyze_sms_list (\<lambda>p. Inr ''{oops}'') (\<lambda>v. ''null'') [[(''body'', Some [])]] = []"
          "analyze_sms_list (\<lambda>p. Inr ''{oops}'') (\<lambda>v. ''null'') [[(''address'', Some ''VM-SBI'')]] = []"
    by (simp_all add: sms_get_def of_opt_def)
  from skip_absent_or_empty [OF h, of "\<lambda>v. ''null''" "[[(''body'', Some [])]]" "[[(''address'', Some ''VM-SBI'')]]"]
  show ?thesis using a e by simp
qed

text \<open>
  C10. When the structured object maps \<open>Amount\<close> to \<open>None\<close>, \<open>floatify\<close> raises a
  \<open>TypeError\<close>, which it does not catch; the handler of \<open>analyze_sms_list\<close> catches it
  and the message yields no record.
\<close>

theorem null_amount_drops_record:
  assumes "sms_get sms ''body'' = Some b" and "b \<noteq> []"
    and "analyze_sms generate b = (content, PDict d)"
    and "map_of d ''Amount'' = Some PNone"
  shows "floatify PNone = Inl TypeError
         \<and> analysis_result generate dumps sms = Inl TypeError
         \<and> analyze_sms_list generate dumps (sms # sms_list) = analyze_sms_list generate dumps sms_list"
proof -
  have f: "floatify PNone = Inl TypeError"
    by (simp add: floatify_def is_ValueError_def)
  from assms(4) have "d \<noteq> []" by auto
  with assms f have r: "analysis_result generate dumps sms = Inl TypeError"
    by (simp add: analysis_result_def dict_item_body andthen_def method_get_def
          dict_get_default_def)
  from assms(1,2) have "truthy (of_opt (sms_get sms ''body''))"
    by (simp add: of_opt_def)
  with f r show ?thesis by simp
qed

theorem null_amount_drops_record_witness:
  \<open>analyze_sms (\<lambda>p. Inr ''{"Amount": null, "Type": "Debit"}'') ''Rs 480 debited''
     = (''{"Amount": null, "Type": "Debit"}'', PDict [(''Amount'', PNone), (''Type'', PStr ''Debit'')])
   \<and> analysis_result (\<lambda>p. Inr ''{"Amount": null, "Type": "Debit"}'') (\<lambda>v. ''null'')
         [(''body'', Some ''Rs 480 debited'')] = Inl TypeError
   \<and> analyze_sms_list (\<lambda>p. Inr ''{"Amount": null, "Type": "Debit"}'') (\<lambda>v. ''null'')
         [[(''body'', Some ''Rs 480 debited'')]] = []\<close>
proof -
  have a: \<open>analyze_sms (\<lambda>p. Inr ''{"Amount": null, "Type": "Debit"}'') ''Rs 480 debited''
     = (''{"Amount": null, "Type": "Debit"}'', PDict [(''Amount'', PNone), (''Type'', PStr ''Debit'')])\<close>
    by code_simp
  have b: "sms_get [(''body'', Some ''Rs 480 debited'')] ''body'' = Some ''Rs 480 debited''"
    by (simp add: sms_get_def)
  have c: "''Rs 480 debited'' \<noteq> []" by simp
  have d: "map_of [(''Amount'', PNone), (''Type'', PStr ''Debit'')] ''Amount'' = Some PNone"
    by simp
  from null_amount_drops_record [OF b c a d, of "\<lambda>v. ''null''" "[]"]
  show ?thesis using a by simp
qed

text \<open>
  C5. \<open>floatify\<close> turns the string \<open>480\<close> into 480.0, the string \<open>Rs480\<close> into 0.0 and
  the default of an absent \<open>Amount\<close> into 0.0; but for the object \<open>{"Amount": null}\<close> it
  raises a \<open>TypeError\<close> and the message yields no record, where the claim promises 0.0.
\<close>

theorem amount_coercion_null_aborts:
  \<open>floatify (PStr ''480'') = Inr (Finite 480)
   \<and> floatify (PStr ''Rs480'') = Inr (Finite 0)
   \<and> floatify (dict_get_default [(''Type'', PStr ''Debit'')] ''Amount'' (PInt 0)) = Inr (Finite 0)
   \<and> floatify (dict_get_default [(''Amount'', PNone)] ''Amount'' (PInt 0)) = Inl TypeError
   \<and> analyze_sms (\<lambda>p. Inr ''{"Amount": null}'') ''Rs 480 debited''
         = (''{"Amount": null}'', PDict [(''Amount'', PNone)])
   \<and> analyze_sms_list (\<lambda>p. Inr ''{"Amount": null}'') (\<lambda>v. ''{"Amount": null}'')
         [[(''body'', Some ''Rs 480 debited'')]] = []\<close>
proof -
  have a: \<open>analyze_sms (\<lambda>p. Inr ''{"Amount": null}'') ''Rs 480 debited''
         = (''{"Amount": null}'', PDict [(''Amount'', PNone)])\<close>
    by code_simp
  have f: "floatify (PStr ''480'') = Inr (Finite 480)"
          "floatify (PStr ''Rs480'') = Inr (Finite 0)"
          "floatify (dict_get_default [(''Type'', PStr ''Debit'')] ''Amount'' (PInt 0)) = Inr (Finite 0)"
          "floatify (dict_get_default [(''Amount'', PNone)] ''Amount'' (PInt 0)) = Inl TypeError"
    by (simp_all add: float_eval dict_get_default_def)
  have l: \<open>analyze_sms_list (\<lambda>p. Inr ''{"Amount": null}'') (\<lambda>v. ''{"Amount": null}'')
         [[(''body'', Some ''Rs 480 debited'')]] = []\<close>
    using a by (simp add: record_eval floatify_def is_ValueError_def)
  from a f l show ?thesis by blast
qed

text \<open>
  C3, as the claim states it, fails: a record whose date is \<open>None\<close> is stored with
  \<open>NULL\<close> in the column \<open>date\<close>.
\<close>

theorem null_date_counterexample:
  \<open>save_to_sqlite None
     (analyze_sms_list (\<lambda>p. Inr ''{"Amount": "480", "Type": "Debit"}'')
        (\<lambda>v. ''{"Amount": "480", "Type": "Debit"}'')
        [[(''address'', Some ''VM-SBI''), (''date'', None), (''body'', Some ''Rs 480 debited''),
          (''body_md5'', Some ''17f5634738676c5fe92c40abf1bc8a7c'')]])
   = (Some [[SqlNull, SqlText ''VM-SBI'', SqlText [], SqlText ''Rs 480 debited'',
             SqlText ''17f5634738676c5fe92c40abf1bc8a7c'',
             SqlText ''{"Amount": "480", "Type": "Debit"}'', SqlReal (Finite 480),
             SqlText ''Debit'', SqlText [], SqlText ''Unknown'']], None)\<close>
proof -
  have a: \<open>analyze_sms (\<lambda>p. Inr ''{"Amount": "480", "Type": "Debit"}'') ''Rs 480 debited''
         = (''{"Amount": "480", "Type": "Debit"}'',
            PDict [(''Amount'', PStr ''480''), (''Type'', PStr ''Debit'')])\<close>
    by code_simp
  have f: "floatify (PStr ''480'') = Inr (Finite 480)"
    by (simp add: float_eval)
  show ?thesis
    using a f by (simp add: record_eval sqlite_eval dict_merge_def)
qed

text \<open>
  C3, amended. After \<open>ensure_keys\<close> every column other than \<open>date\<close> holds a value that
  is not \<open>None\<close>, and a column for which the record has no value but \<open>None\<close> holds its
  default: 0.0 for the amount, \<open>Unknown\<close> for type and category, the empty string for the
  other texts, and \<open>None\<close> for the date.
\<close>

theorem ensure_keys_non_null_but_date:
  "(k \<in> set columns \<and> k \<noteq> ''date'' \<longrightarrow> dict_get (ensure_keys r) k \<noteq> PNone)
   \<and> ((\<forall>v. (k, v) \<in> set r \<longrightarrow> v = PNone)
        \<longrightarrow> dict_get (ensure_keys r) k = dict_get defaults k)
   \<and> map (dict_get defaults) columns =
        [PNone, PStr [], PStr [], PStr [], PStr [], PStr [], PFloat (Finite 0),
         PStr ''Unknown'', PStr [], PStr ''Unknown'']"
  by (rule conjI [OF ensure_keys_not_None conjI [OF ensure_keys_default defaults_columns]])

theorem ensure_keys_non_null_but_date_witness:
  "''type'' \<in> set columns \<and> ''type'' \<noteq> ''date''
   \<and> dict_get (ensure_keys [(''type'', PNone), (''date'', PNone)]) ''type'' \<noteq> PNone
   \<and> dict_get (ensure_keys [(''type'', PNone), (''date'', PNone)]) ''type'' = PStr ''Unknown''
   \<and> dict_get (ensure_keys [(''type'', PNone), (''date'', PNone)]) ''date'' = PNone"
proof -
  let ?r = "[(''type'', PNone), (''date'', PNone)]"
  have c: "''type'' \<in> set columns \<and> ''type'' \<noteq> ''date''"
    by (simp add: columns_def)
  have n1: "\<forall>v. (''type'', v) \<in> set ?r \<longrightarrow> v = PNone"
    by simp
  have n2: "\<forall>v. (''date'', v) \<in> set ?r \<longrightarrow> v = PNone"
    by simp
  have d1: "dict_get defaults ''type'' = PStr ''Unknown''"
    by (simp add: defaults_def dict_get_def)
  have d2: "dict_get defaults ''date'' = PNone"
    by (simp add: defaults_def dict_get_def)
  note t = ensure_keys_non_null_but_date [of "''type''" ?r]
  note u = ensure_keys_non_null_but_date [of "''date''" ?r]
  from conjunct1 [OF t] c
  have a: "dict_get (ensure_keys ?r) ''type'' \<noteq> PNone" by (rule mp)
  from conjunct1 [OF conjunct2 [OF t]] n1
  have "dict_get (ensure_keys ?r) ''type'' = dict_get defaults ''type''" by (rule mp)
  from this d1 have b: "dict_get (ensure_keys ?r) ''type'' = PStr ''Unknown''" by (rule trans)
  from conjunct1 [OF conjunct2 [OF u]] n2
  have "dict_get (ensure_keys ?r) ''date'' = dict_get defaults ''date''" by (rule mp)
  from this d2 have e: "dict_get (ensure_keys ?r) ''date'' = PNone" by (rule trans)
  show ?thesis
    by (rule conjI [OF conjunct1 [OF c] conjI [OF conjunct2 [OF c] conjI [OF a conjI [OF b e]]]])
qed

text \<open>
  C1, as the claim states it, fails: for the response \<open>Not expense\<close> a record is
  produced and a row is stored.
\<close>

theorem sentinel_counterexample:
  \<open>analyze_sms (\<lambda>p. Inr ''Not expense'') ''hello'' = (''Not expense'', PDict [])
   \<and> save_to_sqlite None
       (analyze_sms_list (\<lambda>p. Inr ''Not expense'') (\<lambda>v. ''{}'')
          [[(''address'', Some ''VM-SBI''), (''date'', Some ''2022-12-19 05:30:00''),
            (''body'', Some ''hello''), (''body_md5'', Some ''5d41402abc4b2a76b9719d911017c592'')]])
     = (Some [[SqlText ''2022-12-19 05:30:00'', SqlText ''VM-SBI'', SqlText [], SqlText ''hello'',
               SqlText ''5d41402abc4b2a76b9719d911017c592'', SqlText ''{}'', SqlInteger 0,
               SqlText ''Unknown'', SqlText [], SqlText ''Unknown'']], None)\<close>
  by code_simp

text \<open>
  C1, amended. For a response equal to a sentinel phrase the interpreter returns the empty
  object, and \<open>analyze_sms_list\<close> produces one record for the message: amount 0, type and
  category \<open>Unknown\<close>, no transaction source and no destination. The record is part of
  the output that goes to persistence.
\<close>

theorem sentinel_yields_default_record:
  assumes "content \<in> set sentinels" and "generate (prompt b) = Inr content"
    and "sms_get sms ''body'' = Some b" and "b \<noteq> []"
  shows "analyze_sms generate b = (content, PDict [])
         \<and> analyze_sms_list generate dumps (sms # sms_list) =
             [(''date'', of_opt (sms_get sms ''date'')),
              (''source'', of_opt (sms_get sms ''address'')),
              (''body'', PStr b),
              (''body_md5'', of_opt (sms_get sms ''body_md5'')),
              (''llm_output'', PStr (dumps (PDict []))),
              (''amount'', PInt 0),
              (''type'', PStr ''Unknown''),
              (''transaction_source'', PNone),
              (''destination'', PNone),
              (''category'', PStr ''Unknown'')] # analyze_sms_list generate dumps sms_list"
proof -
  from assms(1) sentinels_unparseable
  have "re_search content = None" "json_loads content = Inl JSONDecodeError"
    by (auto simp: list_all_iff)
  with assms(2) have a: "analyze_sms generate b = (content, PDict [])"
    by (simp add: analyze_sms_def)
  with assms(3,4) show ?thesis
    by (simp add: analysis_result_def dict_item_body andthen_def method_get_def
          dict_get_default_def of_opt_def json_to_string_def)
qed

theorem sentinel_yields_default_record_witness:
  "''Money requested'' \<in> set sentinels
   \<and> analyze_sms (\<lambda>p. Inr ''Money requested'') ''Pay Rs 50 to Ravi'' = (''Money requested'', PDict [])
   \<and> analyze_sms_list (\<lambda>p. Inr ''Money requested'') (\<lambda>v. ''{}'')
        [[(''body'', Some ''Pay Rs 50 to Ravi'')]] =
      [[(''date'', PNone), (''source'', PNone), (''body'', PStr ''Pay Rs 50 to Ravi''),
        (''body_md5'', PNone), (''llm_output'', PStr ''{}''), (''amount'', PInt 0),
        (''type'', PStr ''Unknown''), (''transaction_source'', PNone), (''destination'', PNone),
        (''category'', PStr ''Unknown'')]]"
proof -
  have s: "''Money requested'' \<in> set sentinels" by (simp add: sentinels_def)
  have g: "(\<lambda>p. Inr ''Money requested'' :: pyexc + string) (prompt ''Pay Rs 50 to Ravi'') = Inr ''Money requested''"
    by simp
  have b: "sms_get [(''body'', Some ''Pay Rs 50 to Ravi'')] ''body'' = Some ''Pay Rs 50 to Ravi''"
    by (simp add: sms_get_def)
  have n: "''Pay Rs 50 to Ravi'' \<noteq> []" by simp
  from sentinel_yields_default_record [OF s g b n, of "\<lambda>v. ''{}''" "[]"] s
  show ?thesis by (simp add: sms_get_def of_opt_def)
qed

text \<open>
  C8. \<open>save_to_sqlite\<close> is all or nothing. When an insert raises, the transaction is rolled
  back: the table holds the rows it held before and the exception leaves the function;
  \<open>main\<close> raises it again without writing the export. When no insert raises, every
  record of the batch has been bound to a row and the table is the old one with all these
  rows inserted, committed at once.
\<close>

theorem save_to_sqlite_all_or_nothing:
  assumes "save_to_sqlite db output = (db', res)"
  shows "(\<forall>e. res = Some e \<longrightarrow>
            db' = Some (table db)
            \<and> (\<exists>sms \<in> set output. bound_row (ensure_keys sms) = Inl e))
         \<and> (res = None \<longrightarrow>
              (\<exists>rows. sequence (map (\<lambda>sms. bound_row (ensure_keys sms)) output) = Inr rows
                     \<and> db' = Some (foldl insert_or_ignore (table db) rows)))
         \<and> (\<forall>generate dumps fromtimestamp doc n csv st' e.
              main generate dumps fromtimestamp doc n (db, csv) = (st', Some e)
              \<longrightarrow> table (fst st') = table db \<and> snd st' = csv)"
proof (intro conjI allI impI)
  fix e assume "res = Some e"
  with assms show "db' = Some (table db)" by (simp add: save_to_sqlite_fails)
next
  fix e assume "res = Some e"
  with assms obtain conn where "insert_all (setup_database db) output = Inl (e, conn)"
    by (auto simp: save_to_sqlite_def split: sum.splits)
  then show "\<exists>sms \<in> set output. bound_row (ensure_keys sms) = Inl e"
    by (rule insert_all_raises)
next
  assume "res = None"
  with assms show "\<exists>rows. sequence (map (\<lambda>sms. bound_row (ensure_keys sms)) output) = Inr rows
                     \<and> db' = Some (foldl insert_or_ignore (table db) rows)"
    by (simp add: save_to_sqlite_succeeds)
next
  fix generate dumps fromtimestamp doc n csv st' e
  assume "main generate dumps fromtimestamp doc n (db, csv) = (st', Some e)"
  then show "table (fst st') = table db" "snd st' = csv"
    using main_fails by blast+
qed

theorem save_to_sqlite_all_or_nothing_witness:
  "save_to_sqlite
     (Some [[SqlNull, SqlText ''VM-SBI'', SqlText [], SqlText ''hello'',
             SqlText ''5d41402abc4b2a76b9719d911017c592'', SqlText ''{}'', SqlInteger 0,
             SqlText ''Unknown'', SqlText [], SqlText ''Unknown'']])
     [[(''date'', PNone), (''source'', PStr ''VM-SBI''), (''body'', PStr ''Rs 480 debited''),
       (''body_md5'', PStr ''17f5634738676c5fe92c40abf1bc8a7c''), (''llm_output'', PStr ''{}''),
       (''amount'', PInt 0), (''type'', PStr ''Unknown''), (''transaction_source'', PNone),
       (''destination'', PNone), (''category'', PStr ''Unknown'')],
      [(''date'', PNone), (''source'', PStr ''VM-SBI''), (''body'', PStr ''Rs 90 debited''),
       (''body_md5'', PStr ''d43b11479ec77ff5aee4780ef7500f1f''), (''llm_output'', PStr ''{}''),
       (''amount'', PInt 0), (''type'', PList [PStr ''Debit'']), (''transaction_source'', PNone),
       (''destination'', PNone), (''category'', PStr ''Unknown'')]]
   = (Some [[SqlNull, SqlText ''VM-SBI'', SqlText [], SqlText ''hello'',
             SqlText ''5d41402abc4b2a76b9719d911017c592'', SqlText ''{}'', SqlInteger 0,
             SqlText ''Unknown'', SqlText [], SqlText ''Unknown'']], Some ProgrammingError)
   \<and> table (Some [[SqlNull, SqlText ''VM-SBI'', SqlText [], SqlText ''hello'',
             SqlText ''5d41402abc4b2a76b9719d911017c592'', SqlText ''{}'', SqlInteger 0,
             SqlText ''Unknown'', SqlText [], SqlText ''Unknown'']])
       = [[SqlNull, SqlText ''VM-SBI'', SqlText [], SqlText ''hello'',
             SqlText ''5d41402abc4b2a76b9719d911017c592'', SqlText ''{}'', SqlInteger 0,
             SqlText ''Unknown'', SqlText [], SqlText ''Unknown'']]"
proof -
  have h: "save_to_sqlite
     (Some [[SqlNull, SqlText ''VM-SBI'', SqlText [], SqlText ''hello'',
             SqlText ''5d41402abc4b2a76b9719d911017c592'', SqlText ''{}'', SqlInteger 0,
             SqlText ''Unknown'', SqlText [], SqlText ''Unknown'']])
     [[(''date'', PNone), (''source'', PStr ''VM-SBI''), (''body'', PStr ''Rs 480 debited''),
       (''body_md5'', PStr ''17f5634738676c5fe92c40abf1bc8a7c''), (''llm_output'', PStr ''{}''),
       (''amount'', PInt 0), (''type'', PStr ''Unknown''), (''transaction_source'', PNone),
       (''destination'', PNone), (''category'', PStr ''Unknown'')],
      [(''date'', PNone), (''source'', PStr ''VM-SBI''), (''body'', PStr ''Rs 90 debited''),
       (''body_md5'', PStr ''d43b11479ec77ff5aee4780ef7500f1f''), (''llm_output'', PStr ''{}''),
       (''amount'', PInt 0), (''type'', PList [PStr ''Debit'']), (''transaction_source'', PNone),
       (''destination'', PNone), (''category'', PStr ''Unknown'')]]
   = (Some [[SqlNull, SqlText ''VM-SBI'', SqlText [], SqlText ''hello'',
             SqlText ''5d41402abc4b2a76b9719d911017c592'', SqlText ''{}'', SqlInteger 0,
             SqlText ''Unknown'', SqlText [], SqlText ''Unknown'']], Some ProgrammingError)"
    by code_simp
  from save_to_sqlite_all_or_nothing [OF h] h show ?thesis by simp
qed

text \<open>
  C7. Persistence is idempotent. A row whose \<open>body_md5\<close> is already in the table is
  ignored by the insert, and when \<open>save_to_sqlite\<close> has stored the output of
  \<open>analyze_sms_list\<close>, storing the same output again raises nothing and leaves the table
  as it is.
\<close>

theorem save_to_sqlite_idempotent:
  assumes "save_to_sqlite db (analyze_sms_list generate dumps sms_list) = (db', None)"
  shows "save_to_sqlite db' (analyze_sms_list generate dumps sms_list) = (db', None)
         \<and> (\<forall>rows r. conflicts rows r \<longrightarrow> insert_or_ignore rows r = rows)"
proof -
  from save_to_sqlite_succeeds [OF assms] obtain rows where
    s: "sequence (map (\<lambda>sms. bound_row (ensure_keys sms))
          (analyze_sms_list generate dumps sms_list)) = Inr rows"
    and d: "db' = Some (foldl insert_or_ignore (table db) rows)"
    by blast
  from pipeline_rows_keyed [OF s] have "\<forall>r \<in> set rows. r ! 4 \<noteq> SqlNull" .
  then have "foldl insert_or_ignore (table db') rows = table db'"
    using foldl_insert_idem [of rows "table db"] d by (simp add: table_def)
  with save_to_sqlite_rows [OF s, of db'] d
  have "save_to_sqlite db' (analyze_sms_list generate dumps sms_list) = (db', None)"
    by (simp add: table_def)
  then show ?thesis by (simp add: insert_or_ignore_def)
qed

theorem save_to_sqlite_idempotent_witness:
  "save_to_sqlite None
     (analyze_sms_list (\<lambda>p. Inr ''Not expense'') (\<lambda>v. ''{}'')
        [[(''address'', Some ''VM-SBI''), (''body'', Some ''hello''),
          (''body_md5'', Some ''5d41402abc4b2a76b9719d911017c592'')],
         [(''address'', Some ''AD-HDFC''), (''body'', Some ''hello''),
          (''body_md5'', Some ''5d41402abc4b2a76b9719d911017c592'')]])
   = (Some [[SqlNull, SqlText ''VM-SBI'', SqlText [], SqlText ''hello'',
             SqlText ''5d41402abc4b2a76b9719d911017c592'', SqlText ''{}'', SqlInteger 0,
             SqlText ''Unknown'', SqlText [], SqlText ''Unknown'']], None)
   \<and> save_to_sqlite
       (Some [[SqlNull, SqlText ''VM-SBI'', SqlText [], SqlText ''hello'',
               SqlText ''5d41402abc4b2a76b9719d911017c592'', SqlText ''{}'', SqlInteger 0,
               SqlText ''Unknown'', SqlText [], SqlText ''Unknown'']])
       (analyze_sms_list (\<lambda>p. Inr ''Not expense'') (\<lambda>v. ''{}'')
        [[(''address'', Some ''VM-SBI''), (''body'', Some ''hello''),
          (''body_md5'', Some ''5d41402abc4b2a76b9719d911017c592'')],
         [(''address'', Some ''AD-HDFC''), (''body'', Some ''hello''),
          (''body_md5'', Some ''5d41402abc4b2a76b9719d911017c592'')]])
     = (Some [[SqlNull, SqlText ''VM-SBI'', SqlText [], SqlText ''hello'',
               SqlText ''5d41402abc4b2a76b9719d911017c592'', SqlText ''{}'', SqlInteger 0,
               SqlText ''Unknown'', SqlText [], SqlText ''Unknown'']], None)"
proof -
  have h: "save_to_sqlite None
     (analyze_sms_list (\<lambda>p. Inr ''Not expense'') (\<lambda>v. ''{}'')
        [[(''address'', Some ''VM-SBI''), (''body'', Some ''hello''),
          (''body_md5'', Some ''5d41402abc4b2a76b9719d911017c592'')],
         [(''address'', Some ''AD-HDFC''), (''body'', Some ''hello''),
          (''body_md5'', Some ''5d41402abc4b2a76b9719d911017c592'')]])
   = (Some [[SqlNull, SqlText ''VM-SBI'', SqlText [], SqlText ''hello'',
             SqlText ''5d41402abc4b2a76b9719d911017c592'', SqlText ''{}'', SqlInteger 0,
             SqlText ''Unknown'', SqlText [], SqlText ''Unknown'']], None)"
    by code_simp
  from save_to_sqlite_idempotent [OF h] h show ?thesis by simp
qed

text \<open>
  C4. A date that is not a number becomes \<open>None\<close> and the message is kept. But for a
  date of 321 digits the division \<open>timestamp / 1000\<close> raises an \<open>OverflowError\<close>, which
  the handler for \<open>(ValueError, TypeError)\<close> does not catch: \<open>parse_sms_xml\<close> raises, for
  every platform conversion \<open>fromtimestamp\<close>, where the claim promises a null timestamp.
\<close>

theorem date_overflow_aborts_parse:
  "parse_sms_xml fromtimestamp
     (Inr [[(''address'', ''VM-SBI''), (''date'', ''19 Dec 2022'')]])
     = Inr [[(''address'', Some ''VM-SBI''), (''date'', None)]]
   \<and> parse_sms_xml fromtimestamp
       (Inr [[(''address'', ''VM-SBI''), (''date'', ''19 Dec 2022'')],
             [(''address'', ''VM-SBI''), (''date'', CHR ''1'' # replicate 320 (CHR ''0'')),
              (''body'', ''Rs 480 debited'')]])
     = Inl OverflowError"
  by (simp add: parse_sms_xml_def parse_sms_def attrib_dict_def dict_of_pairs_def dict_merge_def
        andthen_def convert_date_overflow convert_date_not_numeric strip_def is_space_def)

text \<open>
  C2, as the claim states it, fails. For the response \<open>Not expense\<close> neither the brace
  substring nor the whole text gives an object, yet the structured object is the empty
  object and not \<open>None\<close>; and a response whose object spans two lines is recovered by the
  interpreter of the specification but not by the code, whose pattern stays on one line.
\<close>

theorem interpreter_counterexample:
  \<open>brace_span ''Not expense'' = None
   \<and> json_loads ''Not expense'' = Inl JSONDecodeError
   \<and> interpret_spec ''Not expense'' = PNone
   \<and> snd (analyze_sms (\<lambda>p. Inr ''Not expense'') ''hello'') = PDict []
   \<and> interpret_spec (''Here: {"Type":'' @ [CHR 0x0A] @ ''"Debit"} done'') = PDict [(''Type'', PStr ''Debit'')]
   \<and> snd (analyze_sms (\<lambda>p. Inr (''Here: {"Type":'' @ [CHR 0x0A] @ ''"Debit"} done'')) ''hello'') = PDict []\<close>
  by code_simp

text \<open>
  C2, amended. For every raw model text: when the text has a \<open>{\<close> followed by a \<open>}\<close> on
  the same line, the text from the first such \<open>{\<close> to the last \<open>}\<close> of that line is parsed
  as JSON; if that fails the whole text is parsed; if that fails too the structured object
  is \<open>None\<close>. When the text has no such \<open>{\<close>, the whole text is parsed, and if that fails
  the structured object is the empty object.
\<close>

theorem interpreter_layers:
  assumes "generate (prompt sms) = Inr content"
  shows "analyze_sms generate sms =
           (content,
            case re_search content of
              Some m \<Rightarrow>
                (case json_loads m of
                   Inr v \<Rightarrow> v
                 | Inl e \<Rightarrow> (case json_loads content of Inr v \<Rightarrow> v | Inl e' \<Rightarrow> PNone))
            | None \<Rightarrow> (case json_loads content of Inr v \<Rightarrow> v | Inl e \<Rightarrow> PDict []))
         \<and> (\<forall>m. re_search content = Some m \<longrightarrow>
              (\<exists>pre post. content = pre @ m @ post \<and> hd m = CHR ''{'' \<and> last m = CHR ''}''
                 \<and> CHR 0x0A \<notin> set m
                 \<and> CHR ''}'' \<notin> set (takeWhile (\<lambda>c. c \<noteq> CHR 0x0A) post)
                 \<and> (\<forall>i < length pre. pre ! i = CHR ''{'' \<longrightarrow>
                       CHR ''}'' \<notin> set (takeWhile (\<lambda>c. c \<noteq> CHR 0x0A) (drop (Suc i) content)))))
         \<and> (re_search content = None \<longrightarrow>
              (\<forall>i < length content. content ! i = CHR ''{'' \<longrightarrow>
                 CHR ''}'' \<notin> set (takeWhile (\<lambda>c. c \<noteq> CHR 0x0A) (drop (Suc i) content))))"
  using analyze_sms_layers [of generate sms content] assms
        re_search_Some [of content] re_search_None [of content]
  by blast

theorem interpreter_layers_witness:
  \<open>analyze_sms (\<lambda>p. Inr ''Sure! {"Type": "Debit"} Hope it helps'') ''Rs 480 debited''
     = (''Sure! {"Type": "Debit"} Hope it helps'', PDict [(''Type'', PStr ''Debit'')])
   \<and> re_search ''Sure! {"Type": "Debit"} Hope it helps'' = Some ''{"Type": "Debit"}''\<close>
proof -
  have r: \<open>re_search ''Sure! {"Type": "Debit"} Hope it helps'' = Some ''{"Type": "Debit"}''\<close>
    by code_simp
  have j: \<open>json_loads ''{"Type": "Debit"}'' = Inr (PDict [(''Type'', PStr ''Debit'')])\<close>
    by code_simp
  note t = interpreter_layers [of \<open>\<lambda>p. Inr ''Sure! {"Type": "Debit"} Hope it helps''\<close>
             \<open>''Rs 480 debited''\<close> \<open>''Sure! {"Type": "Debit"} Hope it helps''\<close>]
  from conjunct1 [OF t [OF refl]]
  have \<open>analyze_sms (\<lambda>p. Inr ''Sure! {"Type": "Debit"} Hope it helps'') ''Rs 480 debited''
     = (''Sure! {"Type": "Debit"} Hope it helps'', PDict [(''Type'', PStr ''Debit'')])\<close>
    unfolding r option.case j sum.case .
  with r show ?thesis by (rule conjI [rotated])
qed

text \<open>
  C6, as the claim states it, fails: two different cleaned bodies have the same
  fingerprint, so equal fingerprints do not give equal bodies.
\<close>

theorem fingerprint_collision:
  "md5_hex ''TEXTCOLLBYfGiJUETHQ4hAcKSMd5zYpgqf1YRDhkmxHkhPWptrkoyz28wnI9V0aHeAuaKnak''
     = md5_hex ''TEXTCOLLBYfGiJUETHQ4hEcKSMd5zYpgqf1YRDhkmxHkhPWptrkoyz28wnI9V0aHeAuaKnak''
   \<and> ''TEXTCOLLBYfGiJUETHQ4hAcKSMd5zYpgqf1YRDhkmxHkhPWptrkoyz28wnI9V0aHeAuaKnak''
     \<noteq> ''TEXTCOLLBYfGiJUETHQ4hEcKSMd5zYpgqf1YRDhkmxHkhPWptrkoyz28wnI9V0aHeAuaKnak''
   \<and> remove_newlines_non_ascii ''TEXTCOLLBYfGiJUETHQ4hAcKSMd5zYpgqf1YRDhkmxHkhPWptrkoyz28wnI9V0aHeAuaKnak''
     = ''TEXTCOLLBYfGiJUETHQ4hAcKSMd5zYpgqf1YRDhkmxHkhPWptrkoyz28wnI9V0aHeAuaKnak''
   \<and> remove_newlines_non_ascii ''TEXTCOLLBYfGiJUETHQ4hEcKSMd5zYpgqf1YRDhkmxHkhPWptrkoyz28wnI9V0aHeAuaKnak''
     = ''TEXTCOLLBYfGiJUETHQ4hEcKSMd5zYpgqf1YRDhkmxHkhPWptrkoyz28wnI9V0aHeAuaKnak''"
proof -
  have "md5_hex ''TEXTCOLLBYfGiJUETHQ4hAcKSMd5zYpgqf1YRDhkmxHkhPWptrkoyz28wnI9V0aHeAuaKnak''
     = md5_hex ''TEXTCOLLBYfGiJUETHQ4hEcKSMd5zYpgqf1YRDhkmxHkhPWptrkoyz28wnI9V0aHeAuaKnak''"
    using md5_hex_textcoll_a md5_hex_textcoll_b by (rule trans [OF _ sym])
  moreover have "''TEXTCOLLBYfGiJUETHQ4hAcKSMd5zYpgqf1YRDhkmxHkhPWptrkoyz28wnI9V0aHeAuaKnak''
     \<noteq> ''TEXTCOLLBYfGiJUETHQ4hEcKSMd5zYpgqf1YRDhkmxHkhPWptrkoyz28wnI9V0aHeAuaKnak''"
    by simp
  moreover have "remove_newlines_non_ascii ''TEXTCOLLBYfGiJUETHQ4hAcKSMd5zYpgqf1YRDhkmxHkhPWptrkoyz28wnI9V0aHeAuaKnak''
     = ''TEXTCOLLBYfGiJUETHQ4hAcKSMd5zYpgqf1YRDhkmxHkhPWptrkoyz28wnI9V0aHeAuaKnak''"
    by (simp add: remove_newlines_non_ascii_def)
  moreover have "remove_newlines_non_ascii ''TEXTCOLLBYfGiJUETHQ4hEcKSMd5zYpgqf1YRDhkmxHkhPWptrkoyz28wnI9V0aHeAuaKnak''
     = ''TEXTCOLLBYfGiJUETHQ4hEcKSMd5zYpgqf1YRDhkmxHkhPWptrkoyz28wnI9V0aHeAuaKnak''"
    by (simp add: remove_newlines_non_ascii_def)
  ultimately show ?thesis by (intro conjI)
qed

text \<open>
  C6, amended. The fingerprint is a function of the cleaned body only: two messages whose
  cleaned bodies are equal get the same fingerprint, whatever their senders and
  timestamps, and the fingerprint is the MD5 digest of the cleaned body as 32 lower-case
  hexadecimal digits. Different cleaned bodies may share a fingerprint.
\<close>

theorem fingerprint_of_cleaned_body:
  assumes "parse_sms fromtimestamp a1 = Inr s1" and "parse_sms fromtimestamp' a2 = Inr s2"
    and "map_of (attrib_dict a1) ''body'' = Some (Some b1)"
    and "map_of (attrib_dict a2) ''body'' = Some (Some b2)"
    and "remove_newlines_non_ascii b1 = remove_newlines_non_ascii b2"
  shows "sms_get s1 ''body_md5'' = sms_get s2 ''body_md5''
         \<and> sms_get s1 ''body_md5'' = Some (md5_hex (remove_newlines_non_ascii b1))
         \<and> length (md5_hex (remove_newlines_non_ascii b1)) = 32
         \<and> set (md5_hex (remove_newlines_non_ascii b1)) \<subseteq> set ''0123456789abcdef''"
  using parse_sms_fingerprint [OF assms(1,3)] parse_sms_fingerprint [OF assms(2,4)] assms(5)
        md5_hex_length [of "remove_newlines_non_ascii b1"]
        md5_hex_chars [of "remove_newlines_non_ascii b1"]
  by simp

theorem fingerprint_of_cleaned_body_witness:
  "parse_sms (\<lambda>x. Inr ''2022-12-19 05:30:00'')
     [(''address'', ''VM-SBI''), (''date'', ''1671408000000''), (''body'', ''Rs 480'' @ [CHR 0x0A] @ ''debited'')]
     = Inr [(''address'', Some ''VM-SBI''), (''date'', Some ''2022-12-19 05:30:00''),
            (''body'', Some ''Rs 480 debited''), (''body_md5'', Some (md5_hex ''Rs 480 debited''))]
   \<and> parse_sms (\<lambda>x. Inr ''2023-01-02 11:00:00'')
     [(''address'', ''AD-HDFC''), (''date'', ''1672637400000''), (''body'', ''Rs 480 debited'')]
     = Inr [(''address'', Some ''AD-HDFC''), (''date'', Some ''2023-01-02 11:00:00''),
            (''body'', Some ''Rs 480 debited''), (''body_md5'', Some (md5_hex ''Rs 480 debited''))]
   \<and> length (md5_hex ''Rs 480 debited'') = 32"
proof -
  have c: "remove_newlines_non_ascii (''Rs 480'' @ [CHR 0x0A] @ ''debited'') = ''Rs 480 debited''"
          "remove_newlines_non_ascii ''Rs 480 debited'' = ''Rs 480 debited''"
    by (simp_all add: remove_newlines_non_ascii_def)
  have d: "convert_date (\<lambda>x. Inr ''2022-12-19 05:30:00'') (Some ''1671408000000'')
             = Inr (Some ''2022-12-19 05:30:00'')"
          "convert_date (\<lambda>x. Inr ''2023-01-02 11:00:00'') (Some ''1672637400000'')
             = Inr (Some ''2023-01-02 11:00:00'')"
    by (simp_all add: convert_date_def andthen_def py_int_def strip_def is_space_def strip_sign_def
          is_digit_def digits_val_def digit_val_def true_div_def dbl_overflows_def)
  have p1: "parse_sms (\<lambda>x. Inr ''2022-12-19 05:30:00'')
     [(''address'', ''VM-SBI''), (''date'', ''1671408000000''), (''body'', ''Rs 480'' @ [CHR 0x0A] @ ''debited'')]
     = Inr [(''address'', Some ''VM-SBI''), (''date'', Some ''2022-12-19 05:30:00''),
            (''body'', Some ''Rs 480 debited''), (''body_md5'', Some (md5_hex ''Rs 480 debited''))]"
    using c(1) d(1)
    by (simp add: parse_sms_def attrib_dict_def dict_of_pairs_def dict_merge_def andthen_def
          strip_def is_space_def)
  have p2: "parse_sms (\<lambda>x. Inr ''2023-01-02 11:00:00'')
     [(''address'', ''AD-HDFC''), (''date'', ''1672637400000''), (''body'', ''Rs 480 debited'')]
     = Inr [(''address'', Some ''AD-HDFC''), (''date'', Some ''2023-01-02 11:00:00''),
            (''body'', Some ''Rs 480 debited''), (''body_md5'', Some (md5_hex ''Rs 480 debited''))]"
    using c(2) d(2)
    by (simp add: parse_sms_def attrib_dict_def dict_of_pairs_def dict_merge_def andthen_def
          strip_def is_space_def)
  have b1: "map_of (attrib_dict [(''address'', ''VM-SBI''), (''date'', ''1671408000000''),
                                 (''body'', ''Rs 480'' @ [CHR 0x0A] @ ''debited'')]) ''body''
              = Some (Some (''Rs 480'' @ [CHR 0x0A] @ ''debited''))"
    by (simp add: attrib_dict_def dict_of_pairs_def dict_merge_def)
  have b2: "map_of (attrib_dict [(''address'', ''AD-HDFC''), (''date'', ''1672637400000''),
                                 (''body'', ''Rs 480 debited'')]) ''body''
              = Some (Some ''Rs 480 debited'')"
    by (simp add: attrib_dict_def dict_of_pairs_def dict_merge_def)
  have e: "remove_newlines_non_ascii (''Rs 480'' @ [CHR 0x0A] @ ''debited'')
             = remove_newlines_non_ascii ''Rs 480 debited''"
    using c by simp
  from fingerprint_of_cleaned_body [OF p1 p2 b1 b2 e] c
  have "length (md5_hex ''Rs 480 debited'') = 32" by simp
  with p1 p2 show ?thesis by (intro conjI)
qed

end
